theory Spec2Isabelle
  imports Complex_Main "HOL-Library.Monad_Syntax" "HOL-Library.Multiset"
begin

section \<open>Numbers and vectors\<close>

text \<open>
  JavaScript numbers are modelled as \<^typ>\<open>real\<close>: the rounding of IEEE doubles and of
  \<^verbatim>\<open>Float32Array\<close> cells is outside this model. The one place where exact arithmetic
  already produces a non-finite value is a division by zero; it is kept as the value
  \<open>None\<close> (see \<open>divideScalar\<close>).

\<close>

text \<open>
  Modelled from the spec: \<^verbatim>\<open>THREE.Vector3\<close> is library code, not a file of the repository.
  The spec (4.1, deriveRenderAttributes) names the operations: edge vectors between
  positions, cross products, sums, and normalisation. Each method the source calls is given
  its definition in three.js.
\<close>

datatype Vector3 = Vector3 (vec_x: real) (vec_y: real) (vec_z: real)

definition subVectors :: "Vector3 \<Rightarrow> Vector3 \<Rightarrow> Vector3" where
  "subVectors a b = Vector3 (vec_x a - vec_x b) (vec_y a - vec_y b) (vec_z a - vec_z b)"

definition crossVectors :: "Vector3 \<Rightarrow> Vector3 \<Rightarrow> Vector3" where
  "crossVectors a b =
     Vector3 (vec_y a * vec_z b - vec_z a * vec_y b) (vec_z a * vec_x b - vec_x a * vec_z b) (vec_x a * vec_y b - vec_y a * vec_x b)"

definition add_vec :: "Vector3 \<Rightarrow> Vector3 \<Rightarrow> Vector3" where
  "add_vec a v = Vector3 (vec_x a + vec_x v) (vec_y a + vec_y v) (vec_z a + vec_z v)"

definition vlength :: "Vector3 \<Rightarrow> real" where
  "vlength v = sqrt (vec_x v * vec_x v + vec_y v * vec_y v + vec_z v * vec_z v)"

definition multiplyScalar :: "Vector3 \<Rightarrow> real \<Rightarrow> Vector3" where
  "multiplyScalar v s = Vector3 (vec_x v * s) (vec_y v * s) (vec_z v * s)"

text \<open>
  \<^verbatim>\<open>divideScalar(s) { return this.multiplyScalar(1 / s) }\<close>. In JavaScript \<^verbatim>\<open>1 / 0\<close> is
  \<^verbatim>\<open>Infinity\<close>, and its product with a component is \<^verbatim>\<open>NaN\<close> (component 0) or infinite:
  \<open>None\<close> stands for such a vector.
\<close>

definition divideScalar :: "Vector3 \<Rightarrow> real \<Rightarrow> Vector3 option" where
  "divideScalar v s = (if s = 0 then None else Some (multiplyScalar v (1 / s)))"

text \<open>\<^verbatim>\<open>normalize() { return this.divideScalar(this.length() || 1) }\<close>\<close>

definition normalize :: "Vector3 \<Rightarrow> Vector3 option" where
  "normalize v = divideScalar v (if vlength v = 0 then 1 else vlength v)"

text \<open>
  The remainder operator \<^verbatim>\<open>%\<close> on integers: the result has the sign of the dividend.
\<close>

definition js_rem :: "int \<Rightarrow> int \<Rightarrow> int" where
  "js_rem a b = sgn a * (\<bar>a\<bar> mod \<bar>b\<bar>)"

section \<open>The snow field\<close>

text \<open>
  The fields of \<^verbatim>\<open>SnowFieldSystem\<close> that the deformation code reads and writes. The three
  buffer attributes of \<^verbatim>\<open>snowGeometry\<close> are lists of vectors (\<^verbatim>\<open>getX(i)\<close> is
  \<open>vec_x (a ! i)\<close>); a stored normal is \<open>None\<close> when its computation divided by zero.
  Scene, camera, lights, the cube and the key handlers do not take part in the deformation
  and are not modelled.
\<close>

record grid =
  snowSize :: real
  snowSegments :: int
  subdivision :: real
  count :: nat
  basePositions :: "real list"
  baseNormals :: "real list"
  elevations :: "real list"
  trackIntensity :: "real list"
  position :: "Vector3 list"
  normal :: "Vector3 option list"
  color :: "Vector3 list"

subsection \<open>Construction\<close>

text \<open>
  Modelled from the spec: \<^verbatim>\<open>THREE.PlaneGeometry\<close> and \<^verbatim>\<open>rotateX\<close> are library code, not
  files of the repository. The spec (4.1, construct) gives their result: \<open>(segments+1)\<^sup>2\<close>
  samples in row-major order on a flat plane, \<open>x\<close> and \<open>z\<close> spanning
  \<open>[-size/2, size/2]\<close> in uniform steps. The definitions follow the library: the plane is
  built in the \<open>xy\<close> plane, row by row from the top, with normal \<open>(0, 0, 1)\<close>, and then
  turned about the \<open>x\<close> axis. Segment counts are integers here, so that the library's
  \<^verbatim>\<open>Math.floor\<close> of them is omitted; a negative count gives no vertex at all, and the
  count 0 never reaches the library, since the constructor replaces it by its default.
\<close>

definition PlaneGeometry_position :: "real \<Rightarrow> real \<Rightarrow> int \<Rightarrow> int \<Rightarrow> Vector3 list" where
  "PlaneGeometry_position width height widthSegments heightSegments =
     (let width_half = width / 2;
          height_half = height / 2;
          gridX1 = widthSegments + 1;
          gridY1 = heightSegments + 1;
          segment_width = width / of_int widthSegments;
          segment_height = height / of_int heightSegments
      in concat (map (\<lambda>iy. map (\<lambda>ix.
           Vector3 (real ix * segment_width - width_half)
                   (- (real iy * segment_height - height_half)) 0)
           [0..<nat gridX1]) [0..<nat gridY1]))"

definition PlaneGeometry_normal :: "real \<Rightarrow> real \<Rightarrow> int \<Rightarrow> int \<Rightarrow> Vector3 list" where
  "PlaneGeometry_normal width height widthSegments heightSegments =
     map (\<lambda>_. Vector3 0 0 1) (PlaneGeometry_position width height widthSegments heightSegments)"

definition rotateX_vec :: "real \<Rightarrow> Vector3 \<Rightarrow> Vector3" where
  "rotateX_vec \<theta> v =
     Vector3 (vec_x v) (vec_y v * cos \<theta> - vec_z v * sin \<theta>) (vec_y v * sin \<theta> + vec_z v * cos \<theta>)"

text \<open>
  \<^verbatim>\<open>initSnowData\<close>: the arrays are allocated (a fresh \<^verbatim>\<open>Float32Array\<close> holds zeros) and
  filled by a loop over the samples.
\<close>

definition initSnowData_step :: "nat \<Rightarrow> grid \<Rightarrow> grid" where
  "initSnowData_step i g =
     g\<lparr>basePositions := (basePositions g)
          [i * 3 := vec_x (position g ! i),
           i * 3 + 1 := vec_y (position g ! i),
           i * 3 + 2 := vec_z (position g ! i)],
       baseNormals := (baseNormals g)[i * 3 := 0, i * 3 + 1 := 1, i * 3 + 2 := 0],
       elevations := (elevations g)[i := 0],
       trackIntensity := (trackIntensity g)[i := 0]\<rparr>"

definition initSnowData :: "grid \<Rightarrow> grid" where
  "initSnowData g =
     (let n = length (position g)
      in fold initSnowData_step [0..<n]
           (g\<lparr>count := n,
              basePositions := replicate (n * 3) 0,
              baseNormals := replicate (n * 3) 0,
              elevations := replicate n 0,
              trackIntensity := replicate n 0\<rparr>))"

definition createSnowField :: "grid \<Rightarrow> grid" where
  "createSnowField g =
     (let ps = map (rotateX_vec (- pi / 2))
                 (PlaneGeometry_position (snowSize g) (snowSize g) (snowSegments g) (snowSegments g));
          ns = map (\<lambda>n. normalize (rotateX_vec (- pi / 2) n))
                 (PlaneGeometry_normal (snowSize g) (snowSize g) (snowSegments g) (snowSegments g));
          colors = replicate (length ps) (Vector3 1 1 1)
      in initSnowData (g\<lparr>position := ps, normal := ns, color := colors\<rparr>))"

text \<open>
  \<^verbatim>\<open>init\<close>, as far as the snow field goes: the parameters are taken from the options and
  the field is created. The call of \<^verbatim>\<open>animate\<close> that ends \<^verbatim>\<open>init\<close> starts the frame loop
  of the host (it moves the cube and presses the vehicle track, frame by frame): what it does
  is a sequence of presses on the constructed field, not part of its construction.
\<close>

definition init :: "real \<Rightarrow> int \<Rightarrow> grid" where
  "init size_opt segments_opt =
     createSnowField
       \<lparr>snowSize = size_opt, snowSegments = segments_opt,
        subdivision = size_opt / of_int segments_opt, count = 0,
        basePositions = [], baseNormals = [], elevations = [], trackIntensity = [],
        position = [], normal = [], color = []\<rparr>"

text \<open>
  The constructor reads \<^verbatim>\<open>options.size || 20\<close> and \<^verbatim>\<open>options.segments || 100\<close>: an absent
  option (\<open>None\<close>) and the number 0 are both falsy and give the default. The source has no
  \<^verbatim>\<open>throw\<close>; the result type has an error alternative so that this can be stated.
\<close>

record options =
  opt_size :: "real option"
  opt_segments :: "int option"

datatype error = InvalidArgument

definition or_default :: "'a::zero option \<Rightarrow> 'a \<Rightarrow> 'a" where
  "or_default v d = (case v of None \<Rightarrow> d | Some a \<Rightarrow> if a = 0 then d else a)"

definition SnowFieldSystem :: "options \<Rightarrow> error + grid" where
  "SnowFieldSystem opts =
     Inr (init (or_default (opt_size opts) 20) (or_default (opt_segments opts) 100))"

text \<open>
  The script \<^verbatim>\<open>src/main.js\<close> builds the same field from the constants
  \<^verbatim>\<open>snowSize = 20\<close> and \<^verbatim>\<open>snowSegments = 100\<close>, with its own allocation of the arrays;
  its functions \<^verbatim>\<open>getVertexIndex\<close>, \<^verbatim>\<open>pressSnow\<close> and \<^verbatim>\<open>updateSnowGeometry\<close> are the
  methods below, word for word, over global variables.
\<close>

definition main_initSnowData :: "grid \<Rightarrow> grid" where
  "main_initSnowData g =
     (let n = length (position g)
      in fold initSnowData_step [0..<n]
           (g\<lparr>count := n,
              basePositions := replicate (n * 3) 0,
              baseNormals := replicate (n * 3) 0,
              elevations := replicate n 0,
              trackIntensity := replicate (n * 5000) 0\<rparr>))"

definition main_init :: grid where
  "main_init =
     (let g = \<lparr>snowSize = 20, snowSegments = 100, subdivision = 20 / 100, count = 0,
               basePositions = [], baseNormals = [], elevations = [], trackIntensity = [],
               position = [], normal = [], color = []\<rparr>;
          ps = map (rotateX_vec (- pi / 2)) (PlaneGeometry_position 20 20 100 100);
          ns = map (\<lambda>n. normalize (rotateX_vec (- pi / 2) n)) (PlaneGeometry_normal 20 20 100 100);
          colors = replicate (length ps) (Vector3 1 1 1)
      in main_initSnowData (g\<lparr>position := ps, normal := ns, color := colors\<rparr>))"

subsection \<open>Index of a world position\<close>

definition getVertexIndex :: "grid \<Rightarrow> real \<Rightarrow> real \<Rightarrow> int" where
  "getVertexIndex g x z =
     (let halfSize = snowSize g / 2;
          xIndex = \<lfloor>(x + halfSize) / subdivision g\<rfloor>;
          zIndex = \<lfloor>(z + halfSize) / subdivision g\<rfloor>;
          clampedXIndex = max 0 (min (snowSegments g) xIndex);
          clampedZIndex = max 0 (min (snowSegments g) zIndex)
      in clampedZIndex * (snowSegments g + 1) + clampedXIndex)"

subsection \<open>Geometry update\<close>

definition setY :: "Vector3 list \<Rightarrow> nat \<Rightarrow> real \<Rightarrow> Vector3 list" where
  "setY a i v = a[i := Vector3 (vec_x (a ! i)) v (vec_z (a ! i))]"

definition setXYZ :: "Vector3 list \<Rightarrow> nat \<Rightarrow> real \<Rightarrow> real \<Rightarrow> real \<Rightarrow> Vector3 list" where
  "setXYZ a i x y z = a[i := Vector3 x y z]"

text \<open>First loop of \<^verbatim>\<open>updateSnowGeometry\<close>: heights and colours.\<close>

definition update_position_color :: "nat \<Rightarrow> grid \<Rightarrow> grid" where
  "update_position_color i g =
     (let intensity = trackIntensity g ! i;
          r = 1 - intensity * 0.2;
          gr = 1 - intensity * 0.15;
          b = 1 - intensity * 0.1
      in g\<lparr>position := setY (position g) i (basePositions g ! (i * 3 + 1) + elevations g ! i),
           color := setXYZ (color g) i r gr b\<rparr>)"

text \<open>
  Body of the second loop: the normal of sample \<open>i\<close>. \<^verbatim>\<open>Math.floor\<close> of the integer
  \<^verbatim>\<open>i % (snowSegments + 1)\<close> is that integer.
\<close>

definition vertex_normal :: "grid \<Rightarrow> nat \<Rightarrow> Vector3 option" where
  "vertex_normal g i =
     (let x = js_rem (int i) (snowSegments g + 1);
          z = \<lfloor>real i / of_int (snowSegments g + 1)\<rfloor>;
          left = (if x > 0 then int i - 1 else int i);
          right = (if x < snowSegments g then int i + 1 else int i);
          top = (if z > 0 then int i - (snowSegments g + 1) else int i);
          bottom = (if z < snowSegments g then int i + (snowSegments g + 1) else int i);
          currentPos = position g ! i;
          leftPos = position g ! nat left;
          rightPos = position g ! nat right;
          topPos = position g ! nat top;
          bottomPos = position g ! nat bottom
      in do {
           toRight \<leftarrow> normalize (subVectors rightPos currentPos);
           toBottom \<leftarrow> normalize (subVectors bottomPos currentPos);
           toLeft \<leftarrow> normalize (subVectors leftPos currentPos);
           toTop \<leftarrow> normalize (subVectors topPos currentPos);
           normal1 \<leftarrow> normalize (crossVectors toRight toBottom);
           normal2 \<leftarrow> normalize (crossVectors toBottom toLeft);
           normal3 \<leftarrow> normalize (crossVectors toLeft toTop);
           normal4 \<leftarrow> normalize (crossVectors toTop toRight);
           normalize (add_vec (add_vec (add_vec (add_vec (Vector3 0 0 0) normal1) normal2) normal3) normal4)
         })"

definition update_normal :: "nat \<Rightarrow> grid \<Rightarrow> grid" where
  "update_normal i g = g\<lparr>normal := (normal g)[i := vertex_normal g i]\<rparr>"

definition updateSnowGeometry :: "grid \<Rightarrow> grid" where
  "updateSnowGeometry g =
     fold update_normal [0..<count g] (fold update_position_color [0..<count g] g)"

subsection \<open>Pressing and resetting\<close>

definition press_sample :: "real \<Rightarrow> real \<Rightarrow> real \<Rightarrow> real \<Rightarrow> real \<Rightarrow> nat \<Rightarrow> grid \<Rightarrow> grid" where
  "press_sample x z radius depth colorIntensity i g =
     (let vx = basePositions g ! (i * 3);
          vz = basePositions g ! (i * 3 + 2);
          distance = sqrt ((vx - x) ^ 2 + (vz - z) ^ 2)
      in if distance < radius then
           (let influence = 1 - distance / radius;
                newElevation = min (elevations g ! i) (- depth * influence);
                g1 = (if newElevation < elevations g ! i
                      then g\<lparr>elevations := (elevations g)[i := newElevation]\<rparr> else g);
                newIntensity = max (trackIntensity g1 ! i) (colorIntensity * influence)
            in if newIntensity > trackIntensity g1 ! i
               then g1\<lparr>trackIntensity := (trackIntensity g1)[i := newIntensity]\<rparr> else g1)
         else g)"

definition pressSnow :: "grid \<Rightarrow> real \<Rightarrow> real \<Rightarrow> real \<Rightarrow> real \<Rightarrow> real \<Rightarrow> grid" where
  "pressSnow g x z radius depth colorIntensity =
     updateSnowGeometry (fold (press_sample x z radius depth colorIntensity) [0..<count g] g)"

definition addVehicleTrack :: "grid \<Rightarrow> Vector3 \<Rightarrow> real \<Rightarrow> grid" where
  "addVehicleTrack g pos wheelOffset =
     (let wheelRadius = 0.1;
          wheelDepth = 0.08;
          g1 = pressSnow g (vec_x pos - wheelOffset) (vec_z pos - wheelOffset) wheelRadius wheelDepth 0.8;
          g2 = pressSnow g1 (vec_x pos + wheelOffset) (vec_z pos - wheelOffset) wheelRadius wheelDepth 0.8;
          g3 = pressSnow g2 (vec_x pos - wheelOffset) (vec_z pos + wheelOffset) wheelRadius wheelDepth 0.8;
          g4 = pressSnow g3 (vec_x pos + wheelOffset) (vec_z pos + wheelOffset) wheelRadius wheelDepth 0.8
      in pressSnow g4 (vec_x pos) (vec_z pos) 0.3 0.05 0.4)"

definition reset_sample :: "nat \<Rightarrow> grid \<Rightarrow> grid" where
  "reset_sample i g = g\<lparr>elevations := (elevations g)[i := 0], trackIntensity := (trackIntensity g)[i := 0]\<rparr>"

definition resetSnow :: "grid \<Rightarrow> grid" where
  "resetSnow g = updateSnowGeometry (fold reset_sample [0..<count g] g)"

subsection \<open>Sequences of presses\<close>

text \<open>
  One call of \<^verbatim>\<open>pressSnow\<close> is recorded by its five arguments; a sequence of calls runs
  from left to right. \<^verbatim>\<open>addVehicleTrack\<close> is the sequence \<open>vehicle_presses\<close>.
\<close>

record press =
  press_x :: real
  press_z :: real
  press_radius :: real
  press_depth :: real
  press_colorIntensity :: real

definition apply_press :: "press \<Rightarrow> grid \<Rightarrow> grid" where
  "apply_press p g =
     pressSnow g (press_x p) (press_z p) (press_radius p) (press_depth p) (press_colorIntensity p)"

definition press_all :: "press list \<Rightarrow> grid \<Rightarrow> grid" where
  "press_all ps g = fold apply_press ps g"

definition valid_press :: "press \<Rightarrow> bool" where
  "valid_press p \<longleftrightarrow>
     0 < press_radius p \<and> 0 \<le> press_depth p \<and>
     0 \<le> press_colorIntensity p \<and> press_colorIntensity p \<le> 1"

definition vehicle_presses :: "Vector3 \<Rightarrow> real \<Rightarrow> press list" where
  "vehicle_presses pos wheelOffset =
     [\<lparr>press_x = vec_x pos - wheelOffset, press_z = vec_z pos - wheelOffset,
       press_radius = 0.1, press_depth = 0.08, press_colorIntensity = 0.8\<rparr>,
      \<lparr>press_x = vec_x pos + wheelOffset, press_z = vec_z pos - wheelOffset,
       press_radius = 0.1, press_depth = 0.08, press_colorIntensity = 0.8\<rparr>,
      \<lparr>press_x = vec_x pos - wheelOffset, press_z = vec_z pos + wheelOffset,
       press_radius = 0.1, press_depth = 0.08, press_colorIntensity = 0.8\<rparr>,
      \<lparr>press_x = vec_x pos + wheelOffset, press_z = vec_z pos + wheelOffset,
       press_radius = 0.1, press_depth = 0.08, press_colorIntensity = 0.8\<rparr>,
      \<lparr>press_x = vec_x pos, press_z = vec_z pos,
       press_radius = 0.3, press_depth = 0.05, press_colorIntensity = 0.4\<rparr>]"

section \<open>Well-formed fields\<close>

text \<open>
  What construction establishes and every operation keeps: a positive number of segments,
  \<open>(segments + 1)\<^sup>2\<close> samples, arrays that cover the samples, and position attributes
  whose \<open>x\<close> and \<open>z\<close> are those of the base positions (only \<open>y\<close> is ever written).
  The script's oversized \<^verbatim>\<open>trackIntensity\<close> is well-formed in this sense too.
\<close>

definition wf :: "grid \<Rightarrow> bool" where
  "wf g \<longleftrightarrow>
     0 < snowSegments g \<and>
     subdivision g = snowSize g / of_int (snowSegments g) \<and>
     count g = nat ((snowSegments g + 1) * (snowSegments g + 1)) \<and>
     length (basePositions g) = count g * 3 \<and>
     length (elevations g) = count g \<and>
     count g \<le> length (trackIntensity g) \<and>
     length (position g) = count g \<and>
     length (normal g) = count g \<and>
     length (color g) = count g \<and>
     map vec_x (position g) = map (\<lambda>i. basePositions g ! (i * 3)) [0..<count g] \<and>
     map vec_z (position g) = map (\<lambda>i. basePositions g ! (i * 3 + 2)) [0..<count g]"

section \<open>The specification's wording\<close>

text \<open>
  The press of one sample, as the specification words it: \<open>d\<close> is the planar Euclidean
  distance from the base position of the sample to the centre; within the radius the elevation
  becomes the minimum of its old value and \<open>-depth * (1 - d/radius)\<close> and the intensity the
  maximum of its old value and \<open>colorIntensity * (1 - d/radius)\<close>; outside both stay.
\<close>

definition sample_distance :: "grid \<Rightarrow> real \<Rightarrow> real \<Rightarrow> nat \<Rightarrow> real" where
  "sample_distance g centerX centerZ i =
     sqrt ((basePositions g ! (i * 3) - centerX)\<^sup>2 + (basePositions g ! (i * 3 + 2) - centerZ)\<^sup>2)"

definition pressed_elevation :: "real \<Rightarrow> real \<Rightarrow> real \<Rightarrow> real \<Rightarrow> real" where
  "pressed_elevation e d radius depth =
     (if d < radius then min e (- depth * (1 - d / radius)) else e)"

definition pressed_intensity :: "real \<Rightarrow> real \<Rightarrow> real \<Rightarrow> real \<Rightarrow> real" where
  "pressed_intensity t d radius colorIntensity =
     (if d < radius then max t (colorIntensity * (1 - d / radius)) else t)"

text \<open>
  Index of a world position, as the specification words it: per axis
  \<open>floor((coord + size/2) / subdivision)\<close> with \<open>subdivision = size / segments\<close>, clamped to
  \<open>[0, segments]\<close>, combined as \<open>z * (segments + 1) + x\<close>.
\<close>

definition clamp :: "int \<Rightarrow> int \<Rightarrow> int \<Rightarrow> int" where
  "clamp v lo hi = (if v < lo then lo else if hi < v then hi else v)"

definition worldToIndex :: "real \<Rightarrow> int \<Rightarrow> real \<Rightarrow> real \<Rightarrow> int" where
  "worldToIndex sz segments x z =
     (let xc = clamp \<lfloor>(x + sz / 2) / (sz / of_int segments)\<rfloor> 0 segments;
          zc = clamp \<lfloor>(z + sz / 2) / (sz / of_int segments)\<rfloor> 0 segments
      in zc * (segments + 1) + xc)"

text \<open>
  The current position of a sample: its base position moved by its elevation.
\<close>

definition current_position :: "grid \<Rightarrow> nat \<Rightarrow> Vector3" where
  "current_position g i =
     add_vec (Vector3 (basePositions g ! (i * 3)) (basePositions g ! (i * 3 + 1))
                (basePositions g ! (i * 3 + 2)))
             (Vector3 0 (elevations g ! i) 0)"

text \<open>
  The normal of the sample at grid coordinates \<open>(x, z)\<close>, as the specification words it:
  the four neighbours with the sample itself at a boundary, the four normalised edge
  vectors, the four normalised cross products right\<times>bottom, bottom\<times>left, left\<times>top,
  top\<times>right, their sum, normalised.
\<close>

definition spec_normal :: "grid \<Rightarrow> nat \<Rightarrow> Vector3 option" where
  "spec_normal g i =
     (let n = nat (snowSegments g);
          x = i mod (n + 1);
          z = i div (n + 1);
          left = (if x = 0 then i else i - 1);
          right = (if x = n then i else i + 1);
          top = (if z = 0 then i else i - (n + 1));
          bottom = (if z = n then i else i + (n + 1));
          edge = (\<lambda>j. normalize (subVectors (current_position g j) (current_position g i)))
      in do {
           r \<leftarrow> edge right;
           b \<leftarrow> edge bottom;
           l \<leftarrow> edge left;
           t \<leftarrow> edge top;
           c1 \<leftarrow> normalize (crossVectors r b);
           c2 \<leftarrow> normalize (crossVectors b l);
           c3 \<leftarrow> normalize (crossVectors l t);
           c4 \<leftarrow> normalize (crossVectors t r);
           normalize (add_vec (add_vec (add_vec c1 c2) c3) c4)
         })"

text \<open>
  The same estimate with the degenerate edges short-circuited: a neighbour that does not
  exist gives no edge, and a cross product with a missing edge is skipped. \<open>unit_vec\<close> is
  the direction of a vector, the zero vector having none.
\<close>

definition unit_vec :: "Vector3 \<Rightarrow> Vector3" where
  "unit_vec v = (if vlength v = 0 then Vector3 0 0 0 else multiplyScalar v (1 / vlength v))"

definition face_normal :: "bool \<Rightarrow> Vector3 \<Rightarrow> Vector3 \<Rightarrow> Vector3" where
  "face_normal present a b = (if present then unit_vec (crossVectors a b) else Vector3 0 0 0)"

definition normal_skipping :: "grid \<Rightarrow> nat \<Rightarrow> Vector3" where
  "normal_skipping g i =
     (let n = nat (snowSegments g);
          x = i mod (n + 1);
          z = i div (n + 1);
          has_left = (0 < x);
          has_right = (x < n);
          has_top = (0 < z);
          has_bottom = (z < n);
          edge = (\<lambda>j. unit_vec (subVectors (current_position g j) (current_position g i)));
          r = edge (i + 1);
          b = edge (i + (n + 1));
          l = edge (i - 1);
          t = edge (i - (n + 1))
      in unit_vec
           (add_vec (add_vec (add_vec
              (face_normal (has_right \<and> has_bottom) r b)
              (face_normal (has_bottom \<and> has_left) b l))
              (face_normal (has_left \<and> has_top) l t))
              (face_normal (has_top \<and> has_right) t r)))"

section \<open>Loops as closed forms\<close>

text \<open>
  Every loop of the source runs over the sample indices and writes cell \<open>i\<close> of its arrays
  in round \<open>i\<close>; after \<open>n\<close> rounds the first \<open>n\<close> cells hold their new values.
\<close>

lemma fold_upt_Suc: "fold f [0..<Suc n] s = f n (fold f [0..<n] s)"
  by simp

lemma set_elevation_if:
  "(if min (elevations g ! i) v < elevations g ! i
    then g\<lparr>elevations := (elevations g)[i := min (elevations g ! i) v]\<rparr> else g) =
   g\<lparr>elevations := (elevations g)[i := min (elevations g ! i) v]\<rparr>"
proof (cases "min (elevations g ! i) v < elevations g ! i")
  case True
  then show ?thesis by simp
next
  case False
  then have "min (elevations g ! i) v = elevations g ! i" by linarith
  then show ?thesis by simp
qed

lemma set_intensity_if:
  "(if max (trackIntensity g ! i) v > trackIntensity g ! i
    then g\<lparr>trackIntensity := (trackIntensity g)[i := max (trackIntensity g ! i) v]\<rparr> else g) =
   g\<lparr>trackIntensity := (trackIntensity g)[i := max (trackIntensity g ! i) v]\<rparr>"
proof (cases "max (trackIntensity g ! i) v > trackIntensity g ! i")
  case True
  then show ?thesis by simp
next
  case False
  then have "max (trackIntensity g ! i) v = trackIntensity g ! i" by linarith
  then show ?thesis by simp
qed

lemma press_sample_eq:
  "press_sample x z r d c i g =
     g\<lparr>elevations := (elevations g)
          [i := pressed_elevation (elevations g ! i) (sample_distance g x z i) r d],
       trackIntensity := (trackIntensity g)
          [i := pressed_intensity (trackIntensity g ! i) (sample_distance g x z i) r c]\<rparr>"
  unfolding press_sample_def Let_def set_elevation_if set_intensity_if
  by (simp add: pressed_elevation_def pressed_intensity_def sample_distance_def)

lemma map_upd_step:
  assumes "n < length xs \<Longrightarrow> v = F n"
  shows "(map (\<lambda>i. if i < n then F i else xs ! i) [0..<length xs])[n := v] =
         map (\<lambda>i. if i < Suc n then F i else xs ! i) [0..<length xs]"
proof (rule nth_equalityI)
  show "length ((map (\<lambda>i. if i < n then F i else xs ! i) [0..<length xs])[n := v]) =
        length (map (\<lambda>i. if i < Suc n then F i else xs ! i) [0..<length xs])"
    by simp
next
  fix i
  assume "i < length ((map (\<lambda>i. if i < n then F i else xs ! i) [0..<length xs])[n := v])"
  then have i: "i < length xs" by simp
  show "(map (\<lambda>i. if i < n then F i else xs ! i) [0..<length xs])[n := v] ! i =
        map (\<lambda>i. if i < Suc n then F i else xs ! i) [0..<length xs] ! i"
  proof (cases "i = n")
    case True
    with i assms show ?thesis by simp
  next
    case False
    with i show ?thesis by (simp add: less_Suc_eq)
  qed
qed

lemma sample_distance_upd [simp]:
  "sample_distance (g\<lparr>elevations := E\<rparr>) x z i = sample_distance g x z i"
  "sample_distance (g\<lparr>trackIntensity := T\<rparr>) x z i = sample_distance g x z i"
  "sample_distance (g\<lparr>position := P\<rparr>) x z i = sample_distance g x z i"
  "sample_distance (g\<lparr>normal := N\<rparr>) x z i = sample_distance g x z i"
  "sample_distance (g\<lparr>color := C\<rparr>) x z i = sample_distance g x z i"
  by (simp_all add: sample_distance_def)

lemma press_loop:
  "fold (press_sample x z r d c) [0..<n] g =
     g\<lparr>elevations := map (\<lambda>i. if i < n
            then pressed_elevation (elevations g ! i) (sample_distance g x z i) r d
            else elevations g ! i) [0..<length (elevations g)],
       trackIntensity := map (\<lambda>i. if i < n
            then pressed_intensity (trackIntensity g ! i) (sample_distance g x z i) r c
            else trackIntensity g ! i) [0..<length (trackIntensity g)]\<rparr>"
proof (induction n)
  case 0
  show ?case by (simp add: map_nth)
next
  case (Suc n)
  show ?case
    unfolding fold_upt_Suc Suc.IH
    by (simp add: press_sample_eq map_upd_step)
qed


subsection \<open>The geometry update keeps the deformation state\<close>

lemma fold_keeps:
  assumes "\<And>i s. sel (f i s) = sel s"
  shows "sel (fold f xs s) = sel s"
  using assms by (induction xs arbitrary: s) simp_all

lemma update_position_color_loop:
  "fold update_position_color [0..<n] g =
     g\<lparr>position := map (\<lambda>i. if i < n
            then Vector3 (vec_x (position g ! i)) (basePositions g ! (i * 3 + 1) + elevations g ! i)
                   (vec_z (position g ! i))
            else position g ! i) [0..<length (position g)],
       color := map (\<lambda>i. if i < n
            then Vector3 (1 - trackIntensity g ! i * 0.2) (1 - trackIntensity g ! i * 0.15)
                   (1 - trackIntensity g ! i * 0.1)
            else color g ! i) [0..<length (color g)]\<rparr>"
proof (induction n)
  case 0
  show ?case by (simp add: map_nth)
next
  case (Suc n)
  show ?case
    unfolding fold_upt_Suc Suc.IH
    by (simp add: update_position_color_def setY_def setXYZ_def Let_def map_upd_step)
qed

lemma vertex_normal_normal_upd [simp]:
  "vertex_normal (g\<lparr>normal := N\<rparr>) i = vertex_normal g i"
  by (simp add: vertex_normal_def)

lemma update_normal_loop:
  "fold update_normal [0..<n] g =
     g\<lparr>normal := map (\<lambda>i. if i < n then vertex_normal g i else normal g ! i)
                   [0..<length (normal g)]\<rparr>"
proof (induction n)
  case 0
  show ?case by (simp add: map_nth)
next
  case (Suc n)
  show ?case
    unfolding fold_upt_Suc Suc.IH
    by (simp add: update_normal_def map_upd_step)
qed

lemma updateSnowGeometry_keeps [simp]:
  "elevations (updateSnowGeometry g) = elevations g"
  "trackIntensity (updateSnowGeometry g) = trackIntensity g"
  "basePositions (updateSnowGeometry g) = basePositions g"
  "count (updateSnowGeometry g) = count g"
  "snowSegments (updateSnowGeometry g) = snowSegments g"
  "snowSize (updateSnowGeometry g) = snowSize g"
  "subdivision (updateSnowGeometry g) = subdivision g"
  by (simp_all add: updateSnowGeometry_def update_normal_loop update_position_color_loop)

lemma pressSnow_elevations:
  "elevations (pressSnow g x z r d c) =
     map (\<lambda>i. if i < count g
            then pressed_elevation (elevations g ! i) (sample_distance g x z i) r d
            else elevations g ! i) [0..<length (elevations g)]"
  by (simp add: pressSnow_def press_loop)

lemma pressSnow_trackIntensity:
  "trackIntensity (pressSnow g x z r d c) =
     map (\<lambda>i. if i < count g
            then pressed_intensity (trackIntensity g ! i) (sample_distance g x z i) r c
            else trackIntensity g ! i) [0..<length (trackIntensity g)]"
  by (simp add: pressSnow_def press_loop)

lemma pressSnow_keeps [simp]:
  "basePositions (pressSnow g x z r d c) = basePositions g"
  "count (pressSnow g x z r d c) = count g"
  "snowSegments (pressSnow g x z r d c) = snowSegments g"
  "snowSize (pressSnow g x z r d c) = snowSize g"
  "subdivision (pressSnow g x z r d c) = subdivision g"
  "length (elevations (pressSnow g x z r d c)) = length (elevations g)"
  "length (trackIntensity (pressSnow g x z r d c)) = length (trackIntensity g)"
  by (simp_all add: pressSnow_def press_loop)

lemma sample_distance_nonneg: "0 \<le> sample_distance g x z i"
  by (simp add: sample_distance_def)

lemma sample_distance_pressSnow [simp]:
  "sample_distance (pressSnow g x z r d c) x' z' i = sample_distance g x' z' i"
  by (simp add: sample_distance_def)

subsection \<open>Construction\<close>

lemma length_concat_grid:
  "length (concat (map (\<lambda>iy. map (f iy) [0..<a]) [0..<b])) = a * b"
  by (induction b) simp_all

lemma nth_concat_grid:
  "i < a * b \<Longrightarrow> concat (map (\<lambda>iy. map (f iy) [0..<a]) [0..<b]) ! i = f (i div a) (i mod a)"
proof (induction b)
  case 0
  then show ?case by simp
next
  case (Suc b)
  show ?case
  proof (cases "i < a * b")
    case True
    with Suc.IH show ?thesis
      by (simp add: nth_append length_concat_grid)
  next
    case False
    with Suc.prems have lo: "a * b \<le> i" and hi: "i < a * Suc b" by simp_all
    from lo hi have d: "i div a = b" by (rule div_nat_eqI)
    have m: "i mod a = i - a * b"
      using d by (simp add: modulo_nat_def mult.commute)
    from hi lo have "i - a * b < a" by simp
    with False show ?thesis
      by (simp add: nth_append length_concat_grid d m)
  qed
qed

lemma initSnowData_loop:
  "fold initSnowData_step [0..<n] g =
     g\<lparr>basePositions := map (\<lambda>k. if k < n * 3
            then [vec_x (position g ! (k div 3)), vec_y (position g ! (k div 3)),
                  vec_z (position g ! (k div 3))] ! (k mod 3)
            else basePositions g ! k) [0..<length (basePositions g)],
       baseNormals := map (\<lambda>k. if k < n * 3 then [0, 1, 0] ! (k mod 3) else baseNormals g ! k)
            [0..<length (baseNormals g)],
       elevations := map (\<lambda>i. if i < n then 0 else elevations g ! i) [0..<length (elevations g)],
       trackIntensity := map (\<lambda>i. if i < n then 0 else trackIntensity g ! i)
            [0..<length (trackIntensity g)]\<rparr>"
proof (induction n)
  case 0
  show ?case by (simp add: map_nth)
next
  case (Suc n)
  have three: "Suc n * 3 = Suc (Suc (Suc (n * 3)))" by simp
  have ar: "Suc (n * 3) mod 3 = 1" "Suc (n * 3) div 3 = n"
    "Suc (Suc (n * 3)) mod 3 = 2" "Suc (Suc (n * 3)) div 3 = n"
    by presburger+
  show ?case
    unfolding fold_upt_Suc Suc.IH three
    by (simp add: initSnowData_step_def map_upd_step ar)
qed


lemma rotateX_quarter:
  "rotateX_vec (- pi / 2) v = Vector3 (vec_x v) (vec_z v) (- vec_y v)"
  "rotateX_vec (- (pi / 2)) v = Vector3 (vec_x v) (vec_z v) (- vec_y v)"
  by (simp_all add: rotateX_vec_def)

lemma normalize_unit_y: "normalize (Vector3 0 1 0) = Some (Vector3 0 1 0)"
  by (simp add: normalize_def vlength_def divideScalar_def multiplyScalar_def)

lemma map_if_replicate:
  "xs = replicate m v \<Longrightarrow> map (\<lambda>i. if i < n then v else xs ! i) [0..<m] = replicate m v"
  by (simp add: list_eq_iff_nth_eq)

lemma initSnowData_fields:
  "count (initSnowData g) = length (position g)"
  "elevations (initSnowData g) = replicate (length (position g)) 0"
  "trackIntensity (initSnowData g) = replicate (length (position g)) 0"
  "length (basePositions (initSnowData g)) = length (position g) * 3"
  "position (initSnowData g) = position g"
  "normal (initSnowData g) = normal g"
  "color (initSnowData g) = color g"
  "snowSize (initSnowData g) = snowSize g"
  "snowSegments (initSnowData g) = snowSegments g"
  "subdivision (initSnowData g) = subdivision g"
  by (simp_all add: initSnowData_def Let_def initSnowData_loop map_if_replicate)

lemma initSnowData_basePositions:
  assumes "i < length (position g)"
  shows "basePositions (initSnowData g) ! (i * 3) = vec_x (position g ! i)"
    and "basePositions (initSnowData g) ! Suc (i * 3) = vec_y (position g ! i)"
    and "basePositions (initSnowData g) ! Suc (Suc (i * 3)) = vec_z (position g ! i)"
proof -
  have ar: "Suc (i * 3) mod 3 = 1" "Suc (i * 3) div 3 = i"
    "Suc (Suc (i * 3)) mod 3 = 2" "Suc (Suc (i * 3)) div 3 = i"
    by presburger+
  from assms have lt: "i * 3 < length (position g) * 3" "Suc (i * 3) < length (position g) * 3"
    "Suc (Suc (i * 3)) < length (position g) * 3" by simp_all
  show "basePositions (initSnowData g) ! (i * 3) = vec_x (position g ! i)"
    using lt by (simp add: initSnowData_def Let_def initSnowData_loop)
  show "basePositions (initSnowData g) ! Suc (i * 3) = vec_y (position g ! i)"
    using lt by (simp add: initSnowData_def Let_def initSnowData_loop ar)
  show "basePositions (initSnowData g) ! Suc (Suc (i * 3)) = vec_z (position g ! i)"
    using lt by (simp add: initSnowData_def Let_def initSnowData_loop ar)
qed

lemma main_initSnowData_fields:
  "count (main_initSnowData g) = length (position g)"
  "elevations (main_initSnowData g) = replicate (length (position g)) 0"
  "trackIntensity (main_initSnowData g) = replicate (length (position g) * 5000) 0"
  "length (basePositions (main_initSnowData g)) = length (position g) * 3"
  "position (main_initSnowData g) = position g"
  "normal (main_initSnowData g) = normal g"
  "color (main_initSnowData g) = color g"
  "snowSize (main_initSnowData g) = snowSize g"
  "snowSegments (main_initSnowData g) = snowSegments g"
  "subdivision (main_initSnowData g) = subdivision g"
  by (simp_all add: main_initSnowData_def Let_def initSnowData_loop map_if_replicate)

lemma main_initSnowData_basePositions:
  assumes "i < length (position g)"
  shows "basePositions (main_initSnowData g) ! (i * 3) = vec_x (position g ! i)"
    and "basePositions (main_initSnowData g) ! Suc (i * 3) = vec_y (position g ! i)"
    and "basePositions (main_initSnowData g) ! Suc (Suc (i * 3)) = vec_z (position g ! i)"
proof -
  have ar: "Suc (i * 3) mod 3 = 1" "Suc (i * 3) div 3 = i"
    "Suc (Suc (i * 3)) mod 3 = 2" "Suc (Suc (i * 3)) div 3 = i"
    by presburger+
  from assms have lt: "i * 3 < length (position g) * 3" "Suc (i * 3) < length (position g) * 3"
    "Suc (Suc (i * 3)) < length (position g) * 3" by simp_all
  show "basePositions (main_initSnowData g) ! (i * 3) = vec_x (position g ! i)"
    using lt by (simp add: main_initSnowData_def Let_def initSnowData_loop)
  show "basePositions (main_initSnowData g) ! Suc (i * 3) = vec_y (position g ! i)"
    using lt by (simp add: main_initSnowData_def Let_def initSnowData_loop ar)
  show "basePositions (main_initSnowData g) ! Suc (Suc (i * 3)) = vec_z (position g ! i)"
    using lt by (simp add: main_initSnowData_def Let_def initSnowData_loop ar)
qed

lemma length_PlaneGeometry_position:
  "length (PlaneGeometry_position w h ws hs) = nat (ws + 1) * nat (hs + 1)"
  by (simp add: PlaneGeometry_position_def Let_def length_concat_grid)

lemma nth_PlaneGeometry_position:
  assumes "i < nat (ws + 1) * nat (hs + 1)"
  shows "PlaneGeometry_position w h ws hs ! i =
           Vector3 (real (i mod nat (ws + 1)) * (w / of_int ws) - w / 2)
                   (- (real (i div nat (ws + 1)) * (h / of_int hs) - h / 2)) 0"
  using assms by (simp add: PlaneGeometry_position_def Let_def nth_concat_grid)

lemma init_fields:
  "count (init sz segs) = nat (segs + 1) * nat (segs + 1)"
  "elevations (init sz segs) = replicate (nat (segs + 1) * nat (segs + 1)) 0"
  "trackIntensity (init sz segs) = replicate (nat (segs + 1) * nat (segs + 1)) 0"
  "length (basePositions (init sz segs)) = nat (segs + 1) * nat (segs + 1) * 3"
  "length (position (init sz segs)) = nat (segs + 1) * nat (segs + 1)"
  "normal (init sz segs) = replicate (nat (segs + 1) * nat (segs + 1)) (Some (Vector3 0 1 0))"
  "color (init sz segs) = replicate (nat (segs + 1) * nat (segs + 1)) (Vector3 1 1 1)"
  "snowSize (init sz segs) = sz"
  "snowSegments (init sz segs) = segs"
  "subdivision (init sz segs) = sz / of_int segs"
  by (simp_all add: init_def createSnowField_def Let_def initSnowData_fields
      length_PlaneGeometry_position PlaneGeometry_normal_def rotateX_quarter normalize_unit_y
      map_replicate_const)

lemma init_position:
  assumes "i < nat (segs + 1) * nat (segs + 1)"
  shows "position (init sz segs) ! i =
           Vector3 (real (i mod nat (segs + 1)) * (sz / of_int segs) - sz / 2) 0
                   (real (i div nat (segs + 1)) * (sz / of_int segs) - sz / 2)"
  using assms
  by (simp add: init_def createSnowField_def Let_def initSnowData_fields
      length_PlaneGeometry_position nth_PlaneGeometry_position rotateX_quarter)

lemma init_basePositions:
  assumes "i < nat (segs + 1) * nat (segs + 1)"
  shows "basePositions (init sz segs) ! (i * 3) = vec_x (position (init sz segs) ! i)"
    and "basePositions (init sz segs) ! Suc (i * 3) = vec_y (position (init sz segs) ! i)"
    and "basePositions (init sz segs) ! Suc (Suc (i * 3)) = vec_z (position (init sz segs) ! i)"
  using assms
  by (simp_all add: init_def createSnowField_def Let_def initSnowData_fields
      initSnowData_basePositions length_PlaneGeometry_position)

section \<open>Pressing one sample\<close>

text \<open>
  Claim C1. For a positive radius and every sample \<open>i\<close>: with \<open>d\<close> the planar distance
  from the base position of the sample to the centre, if \<open>d < radius\<close> the call leaves
  \<open>min (old elevation) (-depth * (1 - d/radius))\<close> in \<open>elevations[i]\<close> and
  \<open>max (old intensity) (colorIntensity * (1 - d/radius))\<close> in \<open>trackIntensity[i]\<close>; if
  \<open>d \<ge> radius\<close> both cells are unchanged.
\<close>

theorem pressSnow_sample:
  assumes "0 < radius" and "i < count g"
    and "count g \<le> length (elevations g)" and "count g \<le> length (trackIntensity g)"
  shows "(sample_distance g centerX centerZ i < radius \<longrightarrow>
            elevations (pressSnow g centerX centerZ radius depth colorIntensity) ! i =
              min (elevations g ! i) (- depth * (1 - sample_distance g centerX centerZ i / radius)) \<and>
            trackIntensity (pressSnow g centerX centerZ radius depth colorIntensity) ! i =
              max (trackIntensity g ! i)
                  (colorIntensity * (1 - sample_distance g centerX centerZ i / radius))) \<and>
         (radius \<le> sample_distance g centerX centerZ i \<longrightarrow>
            elevations (pressSnow g centerX centerZ radius depth colorIntensity) ! i = elevations g ! i \<and>
            trackIntensity (pressSnow g centerX centerZ radius depth colorIntensity) ! i =
              trackIntensity g ! i)"
  using assms
  by (simp add: pressSnow_elevations pressSnow_trackIntensity pressed_elevation_def
      pressed_intensity_def)

theorem pressSnow_sample_witness:
  "(0::real) < 1 \<and> 2 < count (init 2 1) \<and>
   count (init 2 1) \<le> length (elevations (init 2 1)) \<and>
   count (init 2 1) \<le> length (trackIntensity (init 2 1)) \<and>
   sample_distance (init 2 1) (- 1) (- 1) 0 = 0 \<and>
   elevations (pressSnow (init 2 1) (- 1) (- 1) 1 (1 / 10) (6 / 10)) ! 0 = - 1 / 10 \<and>
   trackIntensity (pressSnow (init 2 1) (- 1) (- 1) 1 (1 / 10) (6 / 10)) ! 0 = 6 / 10 \<and>
   sample_distance (init 2 1) (- 1) (- 1) 2 = 2 \<and>
   elevations (pressSnow (init 2 1) (- 1) (- 1) 1 (1 / 10) (6 / 10)) ! 2 = 0 \<and>
   trackIntensity (pressSnow (init 2 1) (- 1) (- 1) 1 (1 / 10) (6 / 10)) ! 2 = 0"
proof -
  have c: "count (init 2 1) = 4" by (simp add: init_fields)
  have l: "length (elevations (init 2 1)) = 4" "length (trackIntensity (init 2 1)) = 4"
    by (simp_all add: init_fields)
  have z: "elevations (init 2 1) ! 0 = 0" "trackIntensity (init 2 1) ! 0 = 0"
    "elevations (init 2 1) ! 2 = 0" "trackIntensity (init 2 1) ! 2 = 0"
    by (simp_all add: init_fields)
  have d0: "sample_distance (init 2 1) (- 1) (- 1) 0 = 0"
    using init_basePositions [of 0 1 2] init_position [of 0 1 2]
    by (simp add: sample_distance_def)
  have d1: "sample_distance (init 2 1) (- 1) (- 1) 2 = 2"
    using init_basePositions [of 2 1 2] init_position [of 2 1 2]
    by (simp add: sample_distance_def)
  show ?thesis
    using pressSnow_sample [of 1 0 "init 2 1" "- 1" "- 1" "1 / 10" "6 / 10"]
      pressSnow_sample [of 1 2 "init 2 1" "- 1" "- 1" "1 / 10" "6 / 10"]
    by (simp add: c l z d0 d1)
qed

text \<open>
  Claim C10. With a radius that is not positive, a call changes no elevation and no track
  intensity, whatever the state, the centre, the depth and the colour intensity.
\<close>

theorem pressSnow_nonpositive_radius:
  assumes "radius \<le> 0"
  shows "elevations (pressSnow g centerX centerZ radius depth colorIntensity) = elevations g \<and>
         trackIntensity (pressSnow g centerX centerZ radius depth colorIntensity) = trackIntensity g"
proof -
  have far: "\<not> sample_distance g centerX centerZ i < radius" for i
    using sample_distance_nonneg [of g centerX centerZ i] assms by linarith
  have e: "pressed_elevation a (sample_distance g centerX centerZ i) radius depth = a" for a i
    using far [of i] by (simp add: pressed_elevation_def)
  have t: "pressed_intensity a (sample_distance g centerX centerZ i) radius colorIntensity = a"
    for a i
    using far [of i] by (simp add: pressed_intensity_def)
  show ?thesis
    by (simp add: pressSnow_elevations pressSnow_trackIntensity e t map_nth cong: if_cong)
qed

theorem pressSnow_nonpositive_radius_witness:
  "(- 1 :: real) \<le> 0 \<and>
   elevations (pressSnow (init 2 1) 0 0 (- 1) (1 / 10) (6 / 10)) = [0, 0, 0, 0] \<and>
   trackIntensity (pressSnow (init 2 1) 0 0 (- 1) (1 / 10) (6 / 10)) = [0, 0, 0, 0]"
  using pressSnow_nonpositive_radius [of "- 1" "init 2 1" 0 0 "1 / 10" "6 / 10"]
  by (simp add: init_fields numeral_eq_Suc)

section \<open>Sequences of presses\<close>

lemma apply_press_keeps [simp]:
  "basePositions (apply_press p g) = basePositions g"
  "count (apply_press p g) = count g"
  "snowSegments (apply_press p g) = snowSegments g"
  "snowSize (apply_press p g) = snowSize g"
  "subdivision (apply_press p g) = subdivision g"
  "length (elevations (apply_press p g)) = length (elevations g)"
  "length (trackIntensity (apply_press p g)) = length (trackIntensity g)"
  by (simp_all add: apply_press_def)

lemma press_all_keeps [simp]:
  "basePositions (press_all ps g) = basePositions g"
  "count (press_all ps g) = count g"
  "snowSegments (press_all ps g) = snowSegments g"
  "snowSize (press_all ps g) = snowSize g"
  "subdivision (press_all ps g) = subdivision g"
  "length (elevations (press_all ps g)) = length (elevations g)"
  "length (trackIntensity (press_all ps g)) = length (trackIntensity g)"
  by (induction ps arbitrary: g; simp add: press_all_def)+

lemma press_all_Cons: "press_all (p # ps) g = press_all ps (apply_press p g)"
  by (simp add: press_all_def)

lemma press_all_append: "press_all (ps @ qs) g = press_all qs (press_all ps g)"
  by (simp add: press_all_def)

lemma sample_distance_apply_press [simp]:
  "sample_distance (apply_press p g) x z i = sample_distance g x z i"
  by (simp add: sample_distance_def)

lemma apply_press_elevations_nth:
  "i < length (elevations g) \<Longrightarrow>
   elevations (apply_press p g) ! i =
     (if i < count g
      then pressed_elevation (elevations g ! i) (sample_distance g (press_x p) (press_z p) i)
             (press_radius p) (press_depth p)
      else elevations g ! i)"
  by (simp add: apply_press_def pressSnow_elevations)

lemma apply_press_trackIntensity_nth:
  "i < length (trackIntensity g) \<Longrightarrow>
   trackIntensity (apply_press p g) ! i =
     (if i < count g
      then pressed_intensity (trackIntensity g ! i) (sample_distance g (press_x p) (press_z p) i)
             (press_radius p) (press_colorIntensity p)
      else trackIntensity g ! i)"
  by (simp add: apply_press_def pressSnow_trackIntensity)

lemma press_all_elevations_nth:
  "i < length (elevations g) \<Longrightarrow>
   elevations (press_all ps g) ! i =
     (if i < count g
      then fold (\<lambda>p e. pressed_elevation e (sample_distance g (press_x p) (press_z p) i)
                  (press_radius p) (press_depth p)) ps (elevations g ! i)
      else elevations g ! i)"
proof (induction ps arbitrary: g)
  case Nil
  show ?case by (simp add: press_all_def)
next
  case (Cons p ps)
  from Cons.prems have "i < length (elevations (apply_press p g))" by simp
  from Cons.IH [OF this] Cons.prems show ?case
    by (simp add: press_all_Cons apply_press_elevations_nth)
qed

lemma press_all_trackIntensity_nth:
  "i < length (trackIntensity g) \<Longrightarrow>
   trackIntensity (press_all ps g) ! i =
     (if i < count g
      then fold (\<lambda>p t. pressed_intensity t (sample_distance g (press_x p) (press_z p) i)
                  (press_radius p) (press_colorIntensity p)) ps (trackIntensity g ! i)
      else trackIntensity g ! i)"
proof (induction ps arbitrary: g)
  case Nil
  show ?case by (simp add: press_all_def)
next
  case (Cons p ps)
  from Cons.prems have "i < length (trackIntensity (apply_press p g))" by simp
  from Cons.IH [OF this] Cons.prems show ?case
    by (simp add: press_all_Cons apply_press_trackIntensity_nth)
qed

lemma pressed_elevation_commute:
  "pressed_elevation (pressed_elevation e d r h) d' r' h' =
   pressed_elevation (pressed_elevation e d' r' h') d r h"
  by (simp add: pressed_elevation_def min.left_commute min.commute)

lemma pressed_intensity_commute:
  "pressed_intensity (pressed_intensity t d r c) d' r' c' =
   pressed_intensity (pressed_intensity t d' r' c') d r c"
  by (simp add: pressed_intensity_def max.left_commute max.commute)

lemma press_all_permuted:
  assumes "mset ps = mset qs"
  shows "elevations (press_all ps g) = elevations (press_all qs g)"
    and "trackIntensity (press_all ps g) = trackIntensity (press_all qs g)"
proof -
  have e: "fold (\<lambda>p e. pressed_elevation e (sample_distance g (press_x p) (press_z p) i)
                  (press_radius p) (press_depth p)) ps =
           fold (\<lambda>p e. pressed_elevation e (sample_distance g (press_x p) (press_z p) i)
                  (press_radius p) (press_depth p)) qs" for i
    by (rule fold_multiset_equiv [OF _ assms]) (simp add: fun_eq_iff pressed_elevation_commute)
  have t: "fold (\<lambda>p t. pressed_intensity t (sample_distance g (press_x p) (press_z p) i)
                  (press_radius p) (press_colorIntensity p)) ps =
           fold (\<lambda>p t. pressed_intensity t (sample_distance g (press_x p) (press_z p) i)
                  (press_radius p) (press_colorIntensity p)) qs" for i
    by (rule fold_multiset_equiv [OF _ assms]) (simp add: fun_eq_iff pressed_intensity_commute)
  show "elevations (press_all ps g) = elevations (press_all qs g)"
    by (rule nth_equalityI) (simp_all add: press_all_elevations_nth e)
  show "trackIntensity (press_all ps g) = trackIntensity (press_all qs g)"
    by (rule nth_equalityI) (simp_all add: press_all_trackIntensity_nth t)
qed

lemma addVehicleTrack_press_all:
  "addVehicleTrack g pos wheelOffset = press_all (vehicle_presses pos wheelOffset) g"
  by (simp add: addVehicleTrack_def vehicle_presses_def press_all_def apply_press_def Let_def)

text \<open>
  Claim C8. Two presses commute: pressing \<open>A\<close> then \<open>B\<close> leaves the same elevations and
  track intensities as pressing \<open>B\<close> then \<open>A\<close>, from every state and for all
  parameters; and the five presses of \<^verbatim>\<open>addVehicleTrack\<close> (four wheels and the centre)
  leave the same elevations and track intensities in whatever order they are applied.
\<close>

theorem pressSnow_commute:
  "elevations (pressSnow (pressSnow g xa za ra da ca) xb zb rb db cb) =
     elevations (pressSnow (pressSnow g xb zb rb db cb) xa za ra da ca) \<and>
   trackIntensity (pressSnow (pressSnow g xa za ra da ca) xb zb rb db cb) =
     trackIntensity (pressSnow (pressSnow g xb zb rb db cb) xa za ra da ca) \<and>
   (\<forall>qs. mset qs = mset (vehicle_presses pos wheelOffset) \<longrightarrow>
      elevations (press_all qs g) = elevations (addVehicleTrack g pos wheelOffset) \<and>
      trackIntensity (press_all qs g) = trackIntensity (addVehicleTrack g pos wheelOffset))"
proof -
  define a where
    "a = \<lparr>press_x = xa, press_z = za, press_radius = ra, press_depth = da, press_colorIntensity = ca\<rparr>"
  define b where
    "b = \<lparr>press_x = xb, press_z = zb, press_radius = rb, press_depth = db, press_colorIntensity = cb\<rparr>"
  have ab: "pressSnow (pressSnow g xa za ra da ca) xb zb rb db cb = press_all [a, b] g"
    and ba: "pressSnow (pressSnow g xb zb rb db cb) xa za ra da ca = press_all [b, a] g"
    by (simp_all add: a_def b_def press_all_def apply_press_def)
  have m: "mset [a, b] = mset [b, a]" by simp
  have pair: "elevations (press_all [a, b] g) = elevations (press_all [b, a] g)"
    "trackIntensity (press_all [a, b] g) = trackIntensity (press_all [b, a] g)"
    by (rule press_all_permuted [OF m])+
  have perm: "elevations (press_all qs g) = elevations (press_all (vehicle_presses pos wheelOffset) g) \<and>
      trackIntensity (press_all qs g) = trackIntensity (press_all (vehicle_presses pos wheelOffset) g)"
    if "mset qs = mset (vehicle_presses pos wheelOffset)" for qs
    using press_all_permuted [OF that] by blast
  show ?thesis
    unfolding ab ba addVehicleTrack_press_all
    using pair perm by blast
qed

theorem pressSnow_commute_witness:
  "mset (rev (vehicle_presses (Vector3 0 0 0) (2 / 10))) = mset (vehicle_presses (Vector3 0 0 0) (2 / 10)) \<and>
   elevations (press_all (rev (vehicle_presses (Vector3 0 0 0) (2 / 10))) (init 2 1)) =
     elevations (addVehicleTrack (init 2 1) (Vector3 0 0 0) (2 / 10)) \<and>
   trackIntensity (press_all (rev (vehicle_presses (Vector3 0 0 0) (2 / 10))) (init 2 1)) =
     trackIntensity (addVehicleTrack (init 2 1) (Vector3 0 0 0) (2 / 10))"
  using pressSnow_commute [of "init 2 1" 0 0 1 1 1 0 0 1 1 1 "Vector3 0 0 0" "2 / 10"]
  by simp

subsection \<open>Bounds and monotonicity\<close>

lemma influence_bounds:
  fixes r d :: real
  assumes "0 < r" and "0 \<le> d" and "d < r"
  shows "0 < 1 - d / r" and "1 - d / r \<le> 1"
proof -
  from assms have "d / r < 1" by simp
  then show "0 < 1 - d / r" by simp
  from assms have "0 \<le> d / r" by simp
  then show "1 - d / r \<le> 1" by simp
qed

lemma pressed_elevation_le: "pressed_elevation e d r h \<le> e"
  by (simp add: pressed_elevation_def)

lemma pressed_intensity_ge: "t \<le> pressed_intensity t d r c"
  by (simp add: pressed_intensity_def)

lemma pressed_intensity_le_1:
  assumes "0 < r" and "0 \<le> d" and "0 \<le> c" and "c \<le> 1" and "t \<le> 1"
  shows "pressed_intensity t d r c \<le> 1"
proof (cases "d < r")
  case False
  with assms show ?thesis by (simp add: pressed_intensity_def)
next
  case True
  from influence_bounds [OF assms(1,2) True]
  have i: "0 \<le> 1 - d / r" "1 - d / r \<le> 1" by simp_all
  from mult_mono [OF assms(4) i(2) _ i(1)] assms(3) have "c * (1 - d / r) \<le> 1" by simp
  with True assms show ?thesis by (simp add: pressed_intensity_def)
qed

lemma apply_press_mono:
  assumes "i < count g" and "count g \<le> length (elevations g)"
    and "count g \<le> length (trackIntensity g)"
  shows "elevations (apply_press p g) ! i \<le> elevations g ! i"
    and "trackIntensity g ! i \<le> trackIntensity (apply_press p g) ! i"
  using assms
  by (simp_all add: apply_press_elevations_nth apply_press_trackIntensity_nth
      pressed_elevation_le pressed_intensity_ge)

lemma press_all_mono:
  assumes "i < count g" and "count g \<le> length (elevations g)"
    and "count g \<le> length (trackIntensity g)"
  shows "elevations (press_all ps g) ! i \<le> elevations g ! i
       \<and> trackIntensity g ! i \<le> trackIntensity (press_all ps g) ! i"
  using assms
proof (induction ps arbitrary: g)
  case Nil
  show ?case by (simp add: press_all_def)
next
  case (Cons p ps)
  have "elevations (press_all ps (apply_press p g)) ! i \<le> elevations (apply_press p g) ! i
      \<and> trackIntensity (apply_press p g) ! i \<le> trackIntensity (press_all ps (apply_press p g)) ! i"
    using Cons.prems by (intro Cons.IH) simp_all
  with apply_press_mono [OF Cons.prems, of p] show ?case
    by (simp add: press_all_Cons)
qed

lemma press_all_le_1:
  assumes "\<forall>p \<in> set ps. valid_press p"
    and "i < count g" and "count g \<le> length (trackIntensity g)"
    and "trackIntensity g ! i \<le> 1"
  shows "trackIntensity (press_all ps g) ! i \<le> 1"
  using assms
proof (induction ps arbitrary: g)
  case Nil
  then show ?case by (simp add: press_all_def)
next
  case (Cons p ps)
  from Cons.prems have v: "valid_press p" by simp
  have "trackIntensity (apply_press p g) ! i \<le> 1"
    using Cons.prems v
    by (simp add: apply_press_trackIntensity_nth valid_press_def pressed_intensity_le_1
        sample_distance_nonneg)
  with Cons.prems have "trackIntensity (press_all ps (apply_press p g)) ! i \<le> 1"
    by (intro Cons.IH) simp_all
  then show ?case by (simp add: press_all_Cons)
qed


lemma main_init_fields:
  "count main_init = 10201"
  "elevations main_init = replicate 10201 0"
  "trackIntensity main_init = replicate 51005000 0"
  "length (basePositions main_init) = 30603"
  "length (position main_init) = 10201"
  "normal main_init = replicate 10201 (Some (Vector3 0 1 0))"
  "color main_init = replicate 10201 (Vector3 1 1 1)"
  "snowSize main_init = 20"
  "snowSegments main_init = 100"
  "subdivision main_init = 20 / 100"
  by (simp_all add: main_init_def Let_def main_initSnowData_fields
      length_PlaneGeometry_position PlaneGeometry_normal_def rotateX_quarter normalize_unit_y
      map_replicate_const)

lemma fresh_zero:
  assumes "g0 = init sz segs \<or> g0 = main_init" and "i < count g0"
  shows "count g0 \<le> length (elevations g0)" and "count g0 \<le> length (trackIntensity g0)"
    and "elevations g0 ! i = 0" and "trackIntensity g0 ! i = 0"
  using assms by (auto simp: init_fields main_init_fields)

text \<open>
  Claim C2. From the freshly constructed state (of the class, for any options, or of the
  script), after every sequence of presses with positive radius, non-negative depth
  and colour intensity in \<open>[0, 1]\<close>, every sample has an elevation of at most 0 and a track
  intensity in \<open>[0, 1]\<close>; and as the sequence goes on (from after \<open>ps\<close> to after
  \<open>ps @ qs\<close>) no elevation rises and no track intensity falls.
\<close>

theorem press_sequence_bounds:
  assumes "\<forall>p \<in> set ps. valid_press p" and "\<forall>p \<in> set qs. valid_press p"
    and "SnowFieldSystem opts = Inr g0 \<or> g0 = main_init"
    and "i < count g0"
  shows "elevations (press_all ps g0) ! i \<le> 0 \<and>
         0 \<le> trackIntensity (press_all ps g0) ! i \<and>
         trackIntensity (press_all ps g0) ! i \<le> 1 \<and>
         elevations (press_all (ps @ qs) g0) ! i \<le> elevations (press_all ps g0) ! i \<and>
         trackIntensity (press_all ps g0) ! i \<le> trackIntensity (press_all (ps @ qs) g0) ! i"
proof -
  from assms(3)
  have "g0 = init (or_default (opt_size opts) 20) (or_default (opt_segments opts) 100)
      \<or> g0 = main_init"
    by (auto simp: SnowFieldSystem_def)
  note z = fresh_zero [OF this assms(4)]
  from press_all_mono [OF assms(4) z(1,2), of ps]
  have a: "elevations (press_all ps g0) ! i \<le> 0" "0 \<le> trackIntensity (press_all ps g0) ! i"
    by (simp_all add: z)
  have b: "trackIntensity (press_all ps g0) ! i \<le> 1"
    using assms(1,4) z by (intro press_all_le_1) simp_all
  have c: "elevations (press_all qs (press_all ps g0)) ! i \<le> elevations (press_all ps g0) ! i
     \<and> trackIntensity (press_all ps g0) ! i \<le> trackIntensity (press_all qs (press_all ps g0)) ! i"
    using assms(4) z(1,2) by (intro press_all_mono) simp_all
  from a b c show ?thesis by (simp add: press_all_append)
qed

theorem press_sequence_bounds_witness:
  "valid_press \<lparr>press_x = - 1, press_z = - 1, press_radius = 1, press_depth = 1 / 10,
                  press_colorIntensity = 6 / 10\<rparr> \<and>
   valid_press \<lparr>press_x = - 1, press_z = - 1, press_radius = 1, press_depth = 2 / 10,
                  press_colorIntensity = 1\<rparr> \<and>
   SnowFieldSystem \<lparr>opt_size = Some 2, opt_segments = Some 1\<rparr> = Inr (init 2 1) \<and>
   0 < count (init 2 1) \<and>
   elevations (press_all [\<lparr>press_x = - 1, press_z = - 1, press_radius = 1, press_depth = 1 / 10,
                  press_colorIntensity = 6 / 10\<rparr>] (init 2 1)) ! 0 \<le> 0 \<and>
   trackIntensity (press_all [\<lparr>press_x = - 1, press_z = - 1, press_radius = 1, press_depth = 1 / 10,
                  press_colorIntensity = 6 / 10\<rparr>] (init 2 1)) ! 0 \<le> 1 \<and>
   elevations (press_all ([\<lparr>press_x = - 1, press_z = - 1, press_radius = 1, press_depth = 1 / 10,
                  press_colorIntensity = 6 / 10\<rparr>] @ [\<lparr>press_x = - 1, press_z = - 1,
                  press_radius = 1, press_depth = 2 / 10, press_colorIntensity = 1\<rparr>]) (init 2 1)) ! 0
     \<le> elevations (press_all [\<lparr>press_x = - 1, press_z = - 1, press_radius = 1, press_depth = 1 / 10,
                  press_colorIntensity = 6 / 10\<rparr>] (init 2 1)) ! 0"
  using press_sequence_bounds [of
      "[\<lparr>press_x = - 1, press_z = - 1, press_radius = 1, press_depth = 1 / 10,
         press_colorIntensity = 6 / 10\<rparr>]"
      "[\<lparr>press_x = - 1, press_z = - 1, press_radius = 1, press_depth = 2 / 10,
         press_colorIntensity = 1\<rparr>]" "\<lparr>opt_size = Some 2, opt_segments = Some 1\<rparr>" "init 2 1" 0]
  by (simp add: valid_press_def init_fields SnowFieldSystem_def or_default_def)

section \<open>Well-formedness is established and kept\<close>

lemma main_init_basePositions:
  assumes "i < 10201"
  shows "basePositions main_init ! (i * 3) = vec_x (position main_init ! i)"
    and "basePositions main_init ! Suc (i * 3) = vec_y (position main_init ! i)"
    and "basePositions main_init ! Suc (Suc (i * 3)) = vec_z (position main_init ! i)"
  using assms
  by (simp_all add: main_init_def Let_def main_initSnowData_fields
      main_initSnowData_basePositions length_PlaneGeometry_position)

lemma wf_init:
  assumes "0 < segs"
  shows "wf (init sz segs)"
proof -
  from assms have n: "nat ((segs + 1) * (segs + 1)) = nat (segs + 1) * nat (segs + 1)"
    by (simp add: nat_mult_distrib)
  show ?thesis
    unfolding wf_def
    using assms
    by (simp add: init_fields n list_eq_iff_nth_eq init_basePositions)
qed

lemma wf_main_init: "wf main_init"
  unfolding wf_def
  by (simp add: main_init_fields list_eq_iff_nth_eq main_init_basePositions)

lemma updateSnowGeometry_position:
  "position (updateSnowGeometry g) =
     map (\<lambda>i. if i < count g
            then Vector3 (vec_x (position g ! i)) (basePositions g ! (i * 3 + 1) + elevations g ! i)
                   (vec_z (position g ! i))
            else position g ! i) [0..<length (position g)]"
  by (simp add: updateSnowGeometry_def update_normal_loop update_position_color_loop)

lemma updateSnowGeometry_color:
  "color (updateSnowGeometry g) =
     map (\<lambda>i. if i < count g
            then Vector3 (1 - trackIntensity g ! i * 0.2) (1 - trackIntensity g ! i * 0.15)
                   (1 - trackIntensity g ! i * 0.1)
            else color g ! i) [0..<length (color g)]"
  by (simp add: updateSnowGeometry_def update_normal_loop update_position_color_loop)

lemma updateSnowGeometry_normal:
  "normal (updateSnowGeometry g) =
     map (\<lambda>i. if i < count g
            then vertex_normal (fold update_position_color [0..<count g] g) i
            else normal g ! i) [0..<length (normal g)]"
  by (simp add: updateSnowGeometry_def update_normal_loop update_position_color_loop)

lemma wf_updateSnowGeometry:
  assumes "wf g"
  shows "wf (updateSnowGeometry g)"
  using assms unfolding wf_def
  by (simp add: updateSnowGeometry_position updateSnowGeometry_color updateSnowGeometry_normal
      list_eq_iff_nth_eq)

lemma wf_pressSnow:
  assumes "wf g"
  shows "wf (pressSnow g x z r d c)"
proof -
  have "wf (fold (press_sample x z r d c) [0..<count g] g)"
    using assms unfolding wf_def by (simp add: press_loop)
  then show ?thesis
    unfolding pressSnow_def by (rule wf_updateSnowGeometry)
qed

lemma reset_loop:
  "fold reset_sample [0..<n] g =
     g\<lparr>elevations := map (\<lambda>i. if i < n then 0 else elevations g ! i) [0..<length (elevations g)],
       trackIntensity := map (\<lambda>i. if i < n then 0 else trackIntensity g ! i)
         [0..<length (trackIntensity g)]\<rparr>"
proof (induction n)
  case 0
  show ?case by (simp add: map_nth)
next
  case (Suc n)
  show ?case
    unfolding fold_upt_Suc Suc.IH
    by (simp add: reset_sample_def map_upd_step)
qed

lemma wf_resetSnow:
  assumes "wf g"
  shows "wf (resetSnow g)"
proof -
  have "wf (fold reset_sample [0..<count g] g)"
    using assms unfolding wf_def by (simp add: reset_loop)
  then show ?thesis
    unfolding resetSnow_def by (rule wf_updateSnowGeometry)
qed

lemma wf_press_all:
  assumes "wf g"
  shows "wf (press_all ps g)"
  using assms
  by (induction ps arbitrary: g) (simp_all add: press_all_def apply_press_def wf_pressSnow)

section \<open>Index of a world position\<close>

lemma clamp_max_min: "0 \<le> hi \<Longrightarrow> clamp v 0 hi = max 0 (min hi v)"
  by (simp add: clamp_def max_def min_def)

lemma wf_count: "wf g \<Longrightarrow> int (count g) = (snowSegments g + 1) * (snowSegments g + 1)"
  by (simp add: wf_def)

lemma index_bound:
  fixes s xc zc :: int
  assumes "0 \<le> xc" "xc \<le> s" "0 \<le> zc" "zc \<le> s"
  shows "0 \<le> zc * (s + 1) + xc" and "zc * (s + 1) + xc < (s + 1) * (s + 1)"
proof -
  from assms show "0 \<le> zc * (s + 1) + xc" by simp
  have "zc * (s + 1) \<le> s * (s + 1)"
    using assms by (intro mult_right_mono) simp_all
  with assms show "zc * (s + 1) + xc < (s + 1) * (s + 1)"
    by (simp add: algebra_simps)
qed

lemma resetSnow_keeps [simp]:
  "basePositions (resetSnow g) = basePositions g"
  "count (resetSnow g) = count g"
  "snowSegments (resetSnow g) = snowSegments g"
  "snowSize (resetSnow g) = snowSize g"
  "subdivision (resetSnow g) = subdivision g"
  by (simp_all add: resetSnow_def reset_loop)

text \<open>
  Claim C4. On a well-formed field, for all real \<open>x\<close> and \<open>z\<close>, inside the grid or not,
  \<^verbatim>\<open>getVertexIndex\<close> returns \<open>zc * (segments + 1) + xc\<close> with \<open>xc\<close> and \<open>zc\<close> the
  floors of \<open>(x + size/2) / subdivision\<close> and \<open>(z + size/2) / subdivision\<close> clamped to
  \<open>[0, segments]\<close>; the index is at least 0 and less than \<open>count\<close>; and it depends on
  the grid's fixed parameters only, so that presses and resets do not change it.
\<close>

theorem getVertexIndex_spec:
  assumes "wf g"
  shows "getVertexIndex g x z = worldToIndex (snowSize g) (snowSegments g) x z \<and>
         0 \<le> getVertexIndex g x z \<and> getVertexIndex g x z < int (count g) \<and>
         getVertexIndex (pressSnow g cx cz r d c) x z = getVertexIndex g x z \<and>
         getVertexIndex (resetSnow g) x z = getVertexIndex g x z"
proof -
  from assms have s: "0 < snowSegments g"
    and sub: "subdivision g = snowSize g / of_int (snowSegments g)"
    by (simp_all add: wf_def)
  define xc where "xc = max 0 (min (snowSegments g) \<lfloor>(x + snowSize g / 2) / subdivision g\<rfloor>)"
  define zc where "zc = max 0 (min (snowSegments g) \<lfloor>(z + snowSize g / 2) / subdivision g\<rfloor>)"
  have i: "getVertexIndex g x z = zc * (snowSegments g + 1) + xc"
    by (simp add: getVertexIndex_def Let_def xc_def zc_def)
  have b: "0 \<le> xc" "xc \<le> snowSegments g" "0 \<le> zc" "zc \<le> snowSegments g"
    using s by (simp_all add: xc_def zc_def)
  have "getVertexIndex g x z = worldToIndex (snowSize g) (snowSegments g) x z"
    using s by (simp add: getVertexIndex_def worldToIndex_def Let_def clamp_max_min sub)
  moreover have "0 \<le> getVertexIndex g x z" "getVertexIndex g x z < int (count g)"
    unfolding i wf_count [OF assms] by (rule index_bound [OF b])+
  moreover have "getVertexIndex (pressSnow g cx cz r d c) x z = getVertexIndex g x z"
    "getVertexIndex (resetSnow g) x z = getVertexIndex g x z"
    by (simp_all add: getVertexIndex_def)
  ultimately show ?thesis by simp
qed


theorem getVertexIndex_spec_witness:
  "wf (init 2 1) \<and>
   getVertexIndex (init 2 1) 100 (- 100) = worldToIndex 2 1 100 (- 100) \<and>
   getVertexIndex (init 2 1) 100 (- 100) = 1 \<and>
   getVertexIndex (init 2 1) 100 (- 100) < int (count (init 2 1)) \<and>
   getVertexIndex (pressSnow (init 2 1) 0 0 1 1 1) 100 (- 100) = 1"
proof -
  have w: "wf (init 2 1)" by (simp add: wf_init)
  have v: "getVertexIndex (init 2 1) 100 (- 100) = 1"
    by (simp add: getVertexIndex_def Let_def init_fields)
  from getVertexIndex_spec [OF w, of 100 "- 100" 0 0 1 1 1] w v show ?thesis
    by (simp add: init_fields)
qed

section \<open>Allocation and construction\<close>

text \<open>
  Claim C5. Every per-sample state array is allocated with exactly \<open>count\<close> cells in
  every path that builds the grid. \<^verbatim>\<open>initSnowData\<close> of the class does so for both arrays,
  and the script does so for \<^verbatim>\<open>elevations\<close>; the script's \<^verbatim>\<open>trackIntensity\<close> has
  \<open>count * 5000\<close> cells.
\<close>

theorem main_trackIntensity_oversized:
  "count main_init = 10201 \<and>
   length (elevations main_init) = 10201 \<and>
   length (trackIntensity main_init) = 51005000 \<and>
   length (trackIntensity main_init) \<noteq> count main_init \<and>
   length (elevations (init sz segs)) = count (init sz segs) \<and>
   length (trackIntensity (init sz segs)) = count (init sz segs)"
  by (simp add: main_init_fields init_fields)

text \<open>
  Claim C6 says that construction with a size or a segment count of at most 0 fails with
  \<open>InvalidArgument\<close>. It does not: 0 is replaced by the default and a negative value is
  used as given.
\<close>

theorem SnowFieldSystem_no_error:
  "SnowFieldSystem \<lparr>opt_size = Some 0, opt_segments = Some 0\<rparr> = Inr (init 20 100) \<and>
   SnowFieldSystem \<lparr>opt_size = Some (- 5), opt_segments = Some (- 3)\<rparr> = Inr (init (- 5) (- 3)) \<and>
   SnowFieldSystem \<lparr>opt_size = Some 0, opt_segments = Some 0\<rparr> \<noteq> Inl InvalidArgument \<and>
   SnowFieldSystem \<lparr>opt_size = Some (- 5), opt_segments = Some (- 3)\<rparr> \<noteq> Inl InvalidArgument"
  by (simp add: SnowFieldSystem_def or_default_def)

text \<open>
  Claim C6, amended. Construction never fails, whatever the size and the segment count: an
  absent or zero size is replaced by 20 and an absent or zero segment count by 100, every
  other value is used as given, and the field has \<open>nat (segments + 1)\<^sup>2\<close> samples with
  arrays of that length.
\<close>

theorem SnowFieldSystem_total:
  "\<exists>g. SnowFieldSystem opts = Inr g \<and>
       snowSize g = or_default (opt_size opts) 20 \<and>
       snowSegments g = or_default (opt_segments opts) 100 \<and>
       count g = nat (snowSegments g + 1) * nat (snowSegments g + 1) \<and>
       length (elevations g) = count g \<and> length (trackIntensity g) = count g \<and>
       length (position g) = count g"
  by (simp add: SnowFieldSystem_def init_fields)

section \<open>Normals\<close>

lemma js_rem_nat: "js_rem (int i) (int m) = int (i mod m)"
  by (cases "i = 0") (simp_all add: js_rem_def zmod_int)

lemma floor_div_nat: "\<lfloor>real i / real_of_int (int m)\<rfloor> = int (i div m)"
  by (simp add: floor_divide_of_nat_eq)

lemma add_vec_zero_left [simp]: "add_vec (Vector3 0 0 0) v = v"
  by (simp add: add_vec_def)

lemma grid_coords:
  fixes i m :: nat
  assumes "i < m * m"
  shows "i mod m < m" and "i div m < m"
proof -
  from assms have m: "0 < m" by (cases m) simp_all
  then show "i mod m < m" by simp
  from assms show "i div m < m"
    by (simp add: less_mult_imp_div_less)
qed

lemma neighbour_in_range:
  fixes i m :: nat
  assumes "i < m * m"
  shows "Suc (i mod m) < m \<Longrightarrow> Suc i < m * m"
    and "Suc (i div m) < m \<Longrightarrow> i + m < m * m"
proof -
  note c = grid_coords [OF assms]
  have i: "i = i div m * m + i mod m" by (simp only: div_mult_mod_eq)
  {
    assume "Suc (i mod m) < m"
    then have "i div m * m + Suc (i mod m) < i div m * m + m" by linarith
    also have "\<dots> = Suc (i div m) * m" by simp
    also have "\<dots> \<le> m * m" using c(2) by (intro mult_le_mono1) simp
    finally have "Suc (i div m * m + i mod m) < m * m" by linarith
    then show "Suc i < m * m" by (simp only: div_mult_mod_eq)
  }
  {
    assume "Suc (i div m) < m"
    then have "Suc (Suc (i div m)) \<le> m" by simp
    then have "Suc (Suc (i div m)) * m \<le> m * m" by (rule mult_le_mono1)
    moreover have "Suc (Suc (i div m)) * m = i div m * m + m + m" by simp
    ultimately have "i div m * m + i mod m + m < m * m" using c(1) by linarith
    then show "i + m < m * m" by (simp only: div_mult_mod_eq)
  }
qed


lemma vertex_normal_spec:
  assumes s: "0 < snowSegments g"
    and seg: "snowSegments g' = snowSegments g"
    and c: "i < (nat (snowSegments g) + 1) * (nat (snowSegments g) + 1)"
    and pos: "\<And>j. j < (nat (snowSegments g) + 1) * (nat (snowSegments g) + 1) \<Longrightarrow>
                position g' ! j = current_position g j"
  shows "vertex_normal g' i = spec_normal g i"
proof -
  define n where "n = nat (snowSegments g)"
  define m where "m = n + 1"
  from s have sn: "snowSegments g = int n" by (simp add: n_def)
  have m1: "int n + 1 = int m" by (simp add: m_def)
  have jr: "js_rem (int i) (int n + 1) = int (i mod m)"
    unfolding m1 by (rule js_rem_nat)
  have fl: "\<lfloor>real i / real_of_int (int n + 1)\<rfloor> = int (i div m)"
    unfolding m1 by (rule floor_div_nat)
  have s0: "snowSegments g' = int n" by (simp add: seg sn)
  from c have im: "i < m * m" by (simp add: n_def m_def)
  note gc = grid_coords [OF im]
  from gc have xn: "i mod m \<le> n" and zn: "i div m \<le> n" by (simp_all add: m_def)
  define l where "l = (if i mod m = 0 then i else i - 1)"
  define r where "r = (if i mod m = n then i else i + 1)"
  define t where "t = (if i div m = 0 then i else i - m)"
  define b where "b = (if i div m = n then i else i + m)"
  have L: "nat (if 0 < int (i mod m) then int i - 1 else int i) = l"
    by (auto simp: l_def nat_diff_distrib')
  have R: "nat (if int (i mod m) < int n then int i + 1 else int i) = r"
    using xn by (auto simp: r_def)
  have T: "nat (if 0 < int (i div m) then int i - (int n + 1) else int i) = t"
    unfolding m1 by (auto simp: t_def nat_diff_distrib')
  have B: "nat (if int (i div m) < int n then int i + (int n + 1) else int i) = b"
    unfolding m1 using zn by (auto simp: b_def nat_add_distrib)
  have "l \<le> i" "t \<le> i" by (simp_all add: l_def t_def)
  with im have lr: "l < m * m" and tr: "t < m * m" by simp_all
  have rr: "r < m * m"
  proof (cases "i mod m = n")
    case True
    with im show ?thesis by (simp add: r_def)
  next
    case False
    with xn have "Suc (i mod m) < m" unfolding m_def by linarith
    from neighbour_in_range(1) [OF im this] False show ?thesis by (simp add: r_def)
  qed
  have br: "b < m * m"
  proof (cases "i div m = n")
    case True
    with im show ?thesis by (simp add: b_def)
  next
    case False
    with zn have "Suc (i div m) < m" unfolding m_def by linarith
    from neighbour_in_range(2) [OF im this] False show ?thesis by (simp add: b_def)
  qed
  have p: "position g' ! j = current_position g j" if "j < m * m" for j
    using that pos [of j] by (simp add: m_def n_def)
  have "vertex_normal g' i =
      do {
        toRight \<leftarrow> normalize (subVectors (position g' ! r) (position g' ! i));
        toBottom \<leftarrow> normalize (subVectors (position g' ! b) (position g' ! i));
        toLeft \<leftarrow> normalize (subVectors (position g' ! l) (position g' ! i));
        toTop \<leftarrow> normalize (subVectors (position g' ! t) (position g' ! i));
        normal1 \<leftarrow> normalize (crossVectors toRight toBottom);
        normal2 \<leftarrow> normalize (crossVectors toBottom toLeft);
        normal3 \<leftarrow> normalize (crossVectors toLeft toTop);
        normal4 \<leftarrow> normalize (crossVectors toTop toRight);
        normalize (add_vec (add_vec (add_vec (add_vec (Vector3 0 0 0) normal1) normal2) normal3) normal4)
      }"
    unfolding vertex_normal_def Let_def s0 jr fl L R T B ..
  also have "\<dots> = spec_normal g i"
    unfolding spec_normal_def Let_def n_def [symmetric] m_def [symmetric]
      l_def [symmetric] r_def [symmetric] t_def [symmetric] b_def [symmetric]
    by (simp add: p im lr rr tr br)
  finally show ?thesis .
qed


lemma updated_position:
  assumes "wf g" and "j < count g"
  shows "position (fold update_position_color [0..<count g] g) ! j = current_position g j"
proof -
  from assms have l: "j < length (position g)" by (simp add: wf_def)
  from assms have "map vec_x (position g) ! j = map (\<lambda>i. basePositions g ! (i * 3)) [0..<count g] ! j"
    and "map vec_z (position g) ! j = map (\<lambda>i. basePositions g ! (i * 3 + 2)) [0..<count g] ! j"
    by (simp_all add: wf_def)
  with assms(2) l have "vec_x (position g ! j) = basePositions g ! (j * 3)"
    and "vec_z (position g ! j) = basePositions g ! (j * 3 + 2)"
    by simp_all
  with assms(2) l show ?thesis
    by (simp add: update_position_color_loop current_position_def add_vec_def)
qed

lemma wf_count_nat:
  assumes "wf g"
  shows "count g = (nat (snowSegments g) + 1) * (nat (snowSegments g) + 1)"
proof -
  from assms have s: "0 < snowSegments g"
    and c: "count g = nat ((snowSegments g + 1) * (snowSegments g + 1))"
    by (simp_all add: wf_def)
  from s have "snowSegments g + 1 = int (nat (snowSegments g) + 1)" by simp
  then have "(snowSegments g + 1) * (snowSegments g + 1) =
      int ((nat (snowSegments g) + 1) * (nat (snowSegments g) + 1))"
    by (simp only: of_nat_mult)
  with c show ?thesis by (simp only: nat_int)
qed

lemma updateSnowGeometry_normal_nth:
  assumes "wf g" and "i < count g"
  shows "normal (updateSnowGeometry g) ! i = spec_normal g i"
proof -
  define g' where "g' = fold update_position_color [0..<count g] g"
  from assms have l: "i < length (normal g)" by (simp add: wf_def)
  from assms have s: "0 < snowSegments g" by (simp add: wf_def)
  have seg: "snowSegments g' = snowSegments g"
    by (simp add: g'_def update_position_color_loop)
  note c = wf_count_nat [OF assms(1)]
  have "normal (updateSnowGeometry g) ! i = vertex_normal g' i"
    using assms(2) l by (simp add: updateSnowGeometry_normal g'_def)
  also have "\<dots> = spec_normal g i"
  proof (rule vertex_normal_spec [OF s seg])
    from assms(2) c show "i < (nat (snowSegments g) + 1) * (nat (snowSegments g) + 1)" by simp
  next
    fix j
    assume "j < (nat (snowSegments g) + 1) * (nat (snowSegments g) + 1)"
    with c have "j < count g" by simp
    from updated_position [OF assms(1) this] show "position g' ! j = current_position g j"
      by (simp add: g'_def)
  qed
  finally show ?thesis .
qed

subsection \<open>Degenerate edges\<close>

lemma vlength_zero_iff: "vlength v = 0 \<longleftrightarrow> v = Vector3 0 0 0"
proof (cases v)
  case (Vector3 a b c)
  have "a * a + b * b + c * c = 0 \<longleftrightarrow> a = 0 \<and> b = 0 \<and> c = 0"
  proof
    assume z: "a * a + b * b + c * c = 0"
    have "0 \<le> a * a" "0 \<le> b * b" "0 \<le> c * c" by simp_all
    with z have "a * a = 0" "b * b = 0" "c * c = 0" by linarith+
    then show "a = 0 \<and> b = 0 \<and> c = 0" by simp
  qed simp
  with Vector3 show ?thesis by (simp add: vlength_def)
qed

lemma normalize_unit: "normalize v = Some (unit_vec v)"
  by (auto simp: normalize_def unit_vec_def divideScalar_def vlength_zero_iff multiplyScalar_def)

lemma unit_vec_zero [simp]: "unit_vec (Vector3 0 0 0) = Vector3 0 0 0"
  by (simp add: unit_vec_def vlength_def)

lemma subVectors_self [simp]: "subVectors a a = Vector3 0 0 0"
  by (simp add: subVectors_def)

lemma crossVectors_zero [simp]:
  "crossVectors (Vector3 0 0 0) a = Vector3 0 0 0"
  "crossVectors a (Vector3 0 0 0) = Vector3 0 0 0"
  by (simp_all add: crossVectors_def)

lemma spec_normal_skipping:
  assumes "i < (nat (snowSegments g) + 1) * (nat (snowSegments g) + 1)"
  shows "spec_normal g i = Some (normal_skipping g i)"
proof -
  define n where "n = nat (snowSegments g)"
  from assms have "i < (n + 1) * (n + 1)" by (simp add: n_def)
  from grid_coords [OF this] have x: "i mod (n + 1) \<le> n" and z: "i div (n + 1) \<le> n"
    by simp_all
  have hr: "(i mod (n + 1) < n) = (i mod (n + 1) \<noteq> n)" using x by linarith
  have hb: "(i div (n + 1) < n) = (i div (n + 1) \<noteq> n)" using z by linarith
  show ?thesis
    unfolding spec_normal_def normal_skipping_def Let_def n_def [symmetric] hr hb
    by (simp add: normalize_unit face_normal_def)
qed


subsection \<open>The flat field\<close>

lemma unit_vec_axis:
  assumes "0 < d"
  shows "unit_vec (Vector3 d 0 0) = Vector3 1 0 0"
    and "unit_vec (Vector3 (- d) 0 0) = Vector3 (- 1) 0 0"
    and "unit_vec (Vector3 0 d 0) = Vector3 0 1 0"
    and "unit_vec (Vector3 0 (- d) 0) = Vector3 0 (- 1) 0"
    and "unit_vec (Vector3 0 0 d) = Vector3 0 0 1"
    and "unit_vec (Vector3 0 0 (- d)) = Vector3 0 0 (- 1)"
  using assms by (simp_all add: unit_vec_def vlength_def multiplyScalar_def)

lemma div_mod_decomposed:
  fixes q r m :: nat
  assumes "r < m"
  shows "(q * m + r) div m = q" and "(q * m + r) mod m = r"
  using assms by simp_all

lemma neighbour_coords:
  fixes i m :: nat
  assumes "0 < m"
  shows "Suc (i mod m) < m \<Longrightarrow> Suc i mod m = Suc (i mod m) \<and> Suc i div m = i div m"
    and "(i + m) mod m = i mod m \<and> (i + m) div m = Suc (i div m)"
    and "0 < i mod m \<Longrightarrow> (i - 1) mod m = i mod m - 1 \<and> (i - 1) div m = i div m"
    and "0 < i div m \<Longrightarrow> (i - m) mod m = i mod m \<and> (i - m) div m = i div m - 1"
proof -
  have i: "i = i div m * m + i mod m" by (simp only: div_mult_mod_eq)
  have r: "i mod m < m" using assms by simp
  {
    assume a: "Suc (i mod m) < m"
    have e: "Suc i = i div m * m + Suc (i mod m)" using i by linarith
    from div_mod_decomposed [OF a, of "i div m"]
    show "Suc i mod m = Suc (i mod m) \<and> Suc i div m = i div m"
      unfolding e [symmetric] by blast
  }
  from assms show "(i + m) mod m = i mod m \<and> (i + m) div m = Suc (i div m)" by simp
  {
    assume a: "0 < i mod m"
    then have e: "i - 1 = i div m * m + (i mod m - 1)" using i by linarith
    from r have b: "i mod m - 1 < m" by linarith
    from div_mod_decomposed [OF b, of "i div m"]
    show "(i - 1) mod m = i mod m - 1 \<and> (i - 1) div m = i div m"
      unfolding e [symmetric] by blast
  }
  {
    assume a: "0 < i div m"
    then have "(i div m - 1) * m + m = i div m * m"
      by (simp add: diff_mult_distrib)
    then have e: "i - m = (i div m - 1) * m + i mod m" using i by linarith
    from div_mod_decomposed [OF r, of "i div m - 1"]
    show "(i - m) mod m = i mod m \<and> (i - m) div m = i div m - 1"
      unfolding e [symmetric] by blast
  }
qed


lemma flat_normal_skipping:
  fixes d h y0 :: real
  assumes d: "0 < d" and n: "0 < nat (snowSegments g)"
    and i: "i < (nat (snowSegments g) + 1) * (nat (snowSegments g) + 1)"
    and cur: "\<And>j. j < (nat (snowSegments g) + 1) * (nat (snowSegments g) + 1) \<Longrightarrow>
       current_position g j =
         Vector3 (real (j mod (nat (snowSegments g) + 1)) * d - h) y0
                 (real (j div (nat (snowSegments g) + 1)) * d - h)"
  shows "normal_skipping g i = Vector3 0 (- 1) 0"
proof -
  define n where "n = nat (snowSegments g)"
  define m where "m = n + 1"
  define x where "x = i mod m"
  define z where "z = i div m"
  have m0: "0 < m" by (simp add: m_def)
  from i have im: "i < m * m" by (simp add: n_def m_def)
  have c: "current_position g j = Vector3 (real (j mod m) * d - h) y0 (real (j div m) * d - h)"
    if "j < m * m" for j
    using cur [of j] that by (simp add: n_def m_def)
  have ci: "current_position g i = Vector3 (real x * d - h) y0 (real z * d - h)"
    using c [OF im] by (simp add: x_def z_def)
  have R: "unit_vec (subVectors (current_position g (i + 1)) (current_position g i)) = Vector3 1 0 0"
    if "x < n"
  proof -
    from that have a: "Suc (i mod m) < m" by (simp add: x_def m_def)
    from neighbour_in_range(1) [OF im a] have "i + 1 < m * m" by simp
    from c [OF this] neighbour_coords(1) [OF m0 a]
    have "current_position g (i + 1) = Vector3 (real (Suc x) * d - h) y0 (real z * d - h)"
      by (simp add: x_def z_def)
    with ci show ?thesis
      by (simp add: subVectors_def algebra_simps unit_vec_axis [OF d])
  qed
  have B: "unit_vec (subVectors (current_position g (i + m)) (current_position g i)) = Vector3 0 0 1"
    if "z < n"
  proof -
    from that have a: "Suc (i div m) < m" by (simp add: z_def m_def)
    from neighbour_in_range(2) [OF im a] have "i + m < m * m" .
    from c [OF this] neighbour_coords(2) [OF m0, of i]
    have "current_position g (i + m) = Vector3 (real x * d - h) y0 (real (Suc z) * d - h)"
      by (simp add: x_def z_def)
    with ci show ?thesis
      by (simp add: subVectors_def algebra_simps unit_vec_axis [OF d] m_def)
  qed
  have L: "unit_vec (subVectors (current_position g (i - 1)) (current_position g i)) = Vector3 (- 1) 0 0"
    if "0 < x"
  proof -
    from that have a: "0 < i mod m" by (simp add: x_def)
    from im have "i - 1 < m * m" by simp
    from c [OF this] neighbour_coords(3) [OF m0 a]
    have "current_position g (i - 1) = Vector3 (real (x - 1) * d - h) y0 (real z * d - h)"
      by (simp add: x_def z_def)
    moreover from that have "real (x - 1) = real x - 1" by simp
    ultimately show ?thesis
      using ci by (simp add: subVectors_def algebra_simps unit_vec_axis [OF d])
  qed
  have T: "unit_vec (subVectors (current_position g (i - m)) (current_position g i)) = Vector3 0 0 (- 1)"
    if "0 < z"
  proof -
    from that have a: "0 < i div m" by (simp add: z_def)
    from im have "i - m < m * m" by simp
    from c [OF this] neighbour_coords(4) [OF m0 a]
    have "current_position g (i - m) = Vector3 (real x * d - h) y0 (real (z - 1) * d - h)"
      by (simp add: x_def z_def)
    moreover from that have "real (z - 1) = real z - 1" by simp
    ultimately show ?thesis
      using ci by (simp add: subVectors_def algebra_simps unit_vec_axis [OF d] m_def)
  qed
  have one: "unit_vec (Vector3 0 (- 1) 0) = Vector3 0 (- 1) 0"
    using unit_vec_axis(4) [of 1] by simp
  have f1: "face_normal (x < n \<and> z < n)
        (unit_vec (subVectors (current_position g (i + 1)) (current_position g i)))
        (unit_vec (subVectors (current_position g (i + m)) (current_position g i))) =
      (if x < n \<and> z < n then Vector3 0 (- 1) 0 else Vector3 0 0 0)"
  proof (cases "x < n \<and> z < n")
    case True
    then have "x < n" and "z < n" by simp_all
    note e1 = R [OF this(1)] and e2 = B [OF this(2)]
    show ?thesis
      unfolding e1 e2 using True by (simp add: face_normal_def crossVectors_def one)
  next
    case False
    then show ?thesis by (simp only: face_normal_def if_False)
  qed
  have f2: "face_normal (z < n \<and> 0 < x)
        (unit_vec (subVectors (current_position g (i + m)) (current_position g i)))
        (unit_vec (subVectors (current_position g (i - 1)) (current_position g i))) =
      (if z < n \<and> 0 < x then Vector3 0 (- 1) 0 else Vector3 0 0 0)"
  proof (cases "z < n \<and> 0 < x")
    case True
    then have "z < n" and "0 < x" by simp_all
    note e1 = B [OF this(1)] and e2 = L [OF this(2)]
    show ?thesis
      unfolding e1 e2 using True by (simp add: face_normal_def crossVectors_def one)
  next
    case False
    then show ?thesis by (simp only: face_normal_def if_False)
  qed
  have f3: "face_normal (0 < x \<and> 0 < z)
        (unit_vec (subVectors (current_position g (i - 1)) (current_position g i)))
        (unit_vec (subVectors (current_position g (i - m)) (current_position g i))) =
      (if 0 < x \<and> 0 < z then Vector3 0 (- 1) 0 else Vector3 0 0 0)"
  proof (cases "0 < x \<and> 0 < z")
    case True
    then have "0 < x" and "0 < z" by simp_all
    note e1 = L [OF this(1)] and e2 = T [OF this(2)]
    show ?thesis
      unfolding e1 e2 using True by (simp add: face_normal_def crossVectors_def one)
  next
    case False
    then show ?thesis by (simp only: face_normal_def if_False)
  qed
  have f4: "face_normal (0 < z \<and> x < n)
        (unit_vec (subVectors (current_position g (i - m)) (current_position g i)))
        (unit_vec (subVectors (current_position g (i + 1)) (current_position g i))) =
      (if 0 < z \<and> x < n then Vector3 0 (- 1) 0 else Vector3 0 0 0)"
  proof (cases "0 < z \<and> x < n")
    case True
    then have "0 < z" and "x < n" by simp_all
    note e1 = T [OF this(1)] and e2 = R [OF this(2)]
    show ?thesis
      unfolding e1 e2 using True by (simp add: face_normal_def crossVectors_def one)
  next
    case False
    then show ?thesis by (simp only: face_normal_def if_False)
  qed
  from n have n0: "0 < n" by (simp add: n_def)
  have two: "unit_vec (Vector3 0 (- 2) 0) = Vector3 0 (- 1) 0"
    using unit_vec_axis(4) [of 2] by simp
  have four: "unit_vec (Vector3 0 (- 4) 0) = Vector3 0 (- 1) 0"
    using unit_vec_axis(4) [of 4] by simp
  have "normal_skipping g i =
      unit_vec (add_vec (add_vec (add_vec
        (if x < n \<and> z < n then Vector3 0 (- 1) 0 else Vector3 0 0 0)
        (if z < n \<and> 0 < x then Vector3 0 (- 1) 0 else Vector3 0 0 0))
        (if 0 < x \<and> 0 < z then Vector3 0 (- 1) 0 else Vector3 0 0 0))
        (if 0 < z \<and> x < n then Vector3 0 (- 1) 0 else Vector3 0 0 0))"
    unfolding normal_skipping_def Let_def n_def [symmetric] m_def [symmetric]
      x_def [symmetric] z_def [symmetric] f1 f2 f3 f4 ..
  also have "\<dots> = Vector3 0 (- 1) 0"
    using n0
    by (cases "x < n"; cases "0 < x"; cases "z < n"; cases "0 < z")
      (simp_all add: add_vec_def one two four)
  finally show ?thesis .
qed


lemma current_position_flat:
  assumes segs: "0 < segs"
    and base: "basePositions g = basePositions (init sz segs)"
    and j: "j < (nat segs + 1) * (nat segs + 1)"
    and zero: "elevations g ! j = 0"
  shows "current_position g j =
           Vector3 (real (j mod (nat segs + 1)) * (sz / of_int segs) - sz / 2) 0
                   (real (j div (nat segs + 1)) * (sz / of_int segs) - sz / 2)"
proof -
  from segs have n: "nat (segs + 1) = nat segs + 1" by simp
  from j have j': "j < nat (segs + 1) * nat (segs + 1)" by (simp only: n)
  note b = init_basePositions [OF j', of sz] and p = init_position [OF j', of sz]
  show ?thesis
    unfolding current_position_def base
    using b p by (simp add: zero add_vec_def n)
qed

lemma wf_reset_loop:
  assumes "wf g"
  shows "wf (fold reset_sample [0..<count g] g)"
  using assms unfolding wf_def by (simp add: reset_loop)

lemma flat_normal:
  assumes sz: "0 < sz" and segs: "0 < segs"
    and w: "wf g" and sg: "snowSegments g = segs"
    and base: "basePositions g = basePositions (init sz segs)"
    and zero: "\<And>j. j < count g \<Longrightarrow> elevations g ! j = 0"
    and i: "i < count g"
  shows "normal (updateSnowGeometry g) ! i = Some (Vector3 0 (- 1) 0)"
proof -
  note c = wf_count_nat [OF w]
  from i c have i': "i < (nat (snowSegments g) + 1) * (nat (snowSegments g) + 1)" by simp
  from sz segs have d: "0 < sz / of_int segs" by simp
  from segs sg have n: "0 < nat (snowSegments g)" by simp
  have "normal_skipping g i = Vector3 0 (- 1) 0"
  proof (rule flat_normal_skipping [OF d n i'])
    fix j
    assume "j < (nat (snowSegments g) + 1) * (nat (snowSegments g) + 1)"
    with c sg have j: "j < (nat segs + 1) * (nat segs + 1)" and jc: "j < count g" by simp_all
    from current_position_flat [OF segs base j zero [OF jc]]
    show "current_position g j =
        Vector3 (real (j mod (nat (snowSegments g) + 1)) * (sz / of_int segs) - sz / 2) 0
                (real (j div (nat (snowSegments g) + 1)) * (sz / of_int segs) - sz / 2)"
      by (simp add: sg)
  qed
  with updateSnowGeometry_normal_nth [OF w i] spec_normal_skipping [OF i'] show ?thesis by simp
qed

lemma reset_normal_flat:
  assumes sz: "0 < sz" and segs: "0 < segs" and i: "i < count (init sz segs)"
  shows "normal (resetSnow (press_all ps (init sz segs))) ! i = Some (Vector3 0 (- 1) 0)"
proof -
  define g where "g = press_all ps (init sz segs)"
  define g' where "g' = fold reset_sample [0..<count g] g"
  have w: "wf g" unfolding g_def by (intro wf_press_all wf_init segs)
  then have w': "wf g'" unfolding g'_def by (rule wf_reset_loop)
  have cg: "count g = count (init sz segs)" by (simp add: g_def)
  have c': "count g' = count g" by (simp add: g'_def reset_loop)
  have sg: "snowSegments g' = segs" by (simp add: g'_def g_def reset_loop init_fields)
  have base: "basePositions g' = basePositions (init sz segs)"
    by (simp add: g'_def g_def reset_loop)
  have zero: "elevations g' ! j = 0" if "j < count g'" for j
  proof -
    from w have "length (elevations g) = count g" by (simp add: wf_def)
    with that c' show ?thesis by (simp add: g'_def reset_loop)
  qed
  from i cg c' have "i < count g'" by simp
  from flat_normal [OF sz segs w' sg base zero this] show ?thesis
    by (simp add: resetSnow_def g'_def g_def)
qed

lemma fresh_normal_flipped:
  assumes sz: "0 < sz" and segs: "0 < segs" and i: "i < count (init sz segs)"
  shows "normal (updateSnowGeometry (init sz segs)) ! i = Some (Vector3 0 (- 1) 0)"
  using assms
  by (intro flat_normal [OF sz segs wf_init [OF segs]]) (simp_all add: init_fields)


lemma resetSnow_position_color:
  assumes segs: "0 < segs"
  shows "position (resetSnow (press_all ps (init sz segs))) = position (init sz segs)"
    and "color (resetSnow (press_all ps (init sz segs))) = color (init sz segs)"
proof -
  define g where "g = press_all ps (init sz segs)"
  define g' where "g' = fold reset_sample [0..<count g] g"
  define k where "k = nat (segs + 1) * nat (segs + 1)"
  have w: "wf g" unfolding g_def by (intro wf_press_all wf_init segs)
  then have w': "wf g'" unfolding g'_def by (rule wf_reset_loop)
  have cg: "count g = k" by (simp add: g_def init_fields k_def)
  have c: "count g' = k" by (simp add: g'_def g_def reset_loop init_fields k_def)
  from w' c have l: "length (position g') = k" "length (color g') = k"
    "length (elevations g') = k" "k \<le> length (trackIntensity g')"
    by (simp_all add: wf_def)
  from w c have lg: "length (elevations g) = k" "k \<le> length (trackIntensity g)"
    by (simp_all add: wf_def g'_def reset_loop)
  have base: "basePositions g' = basePositions (init sz segs)"
    by (simp add: g'_def g_def reset_loop)
  have r: "resetSnow (press_all ps (init sz segs)) = updateSnowGeometry g'"
    by (simp add: resetSnow_def g'_def g_def)
  show "position (resetSnow (press_all ps (init sz segs))) = position (init sz segs)"
  proof (rule nth_equalityI)
    show "length (position (resetSnow (press_all ps (init sz segs)))) = length (position (init sz segs))"
      by (simp add: r updateSnowGeometry_position l init_fields k_def)
  next
    fix j
    assume "j < length (position (resetSnow (press_all ps (init sz segs))))"
    then have j: "j < k" by (simp add: r updateSnowGeometry_position l)
    then have jc: "j < count g'" by (simp add: c)
    have z: "elevations g' ! j = 0" using j lg by (simp add: g'_def reset_loop cg)
    have "position (updateSnowGeometry g') ! j = current_position g' j"
      using updated_position [OF w' jc]
      by (simp add: updateSnowGeometry_def update_normal_loop)
    also have "\<dots> = position (init sz segs) ! j"
      using init_basePositions [of j segs sz] j
      by (simp add: current_position_def base z add_vec_def k_def)
    finally show "position (resetSnow (press_all ps (init sz segs))) ! j = position (init sz segs) ! j"
      by (simp add: r)
  qed
  show "color (resetSnow (press_all ps (init sz segs))) = color (init sz segs)"
  proof (rule nth_equalityI)
    show "length (color (resetSnow (press_all ps (init sz segs)))) = length (color (init sz segs))"
      by (simp add: r updateSnowGeometry_color l init_fields k_def)
  next
    fix j
    assume "j < length (color (resetSnow (press_all ps (init sz segs))))"
    then have j: "j < k" by (simp add: r updateSnowGeometry_color l)
    have z: "trackIntensity g' ! j = 0"
      using j lg by (simp add: g'_def reset_loop cg)
    show "color (resetSnow (press_all ps (init sz segs))) ! j = color (init sz segs) ! j"
      using j by (simp add: r updateSnowGeometry_color l c z init_fields k_def)
  qed
qed

section \<open>The claims on normals and on reset\<close>

text \<open>
  Claim C7. For every sample of a well-formed field, \<^verbatim>\<open>updateSnowGeometry\<close> stores the normal
  that the specification describes: the four neighbours with the sample itself at a
  boundary, the normalised edges from the sample's current position to theirs, the
  normalised cross products right\<times>bottom, bottom\<times>left, left\<times>top and top\<times>right, and
  their normalised sum.
\<close>

theorem stored_normal_is_spec_normal:
  assumes "wf g" and "i < count g"
  shows "normal (updateSnowGeometry g) ! i = spec_normal g i"
  using assms by (rule updateSnowGeometry_normal_nth)

theorem stored_normal_is_spec_normal_witness:
  "wf (init 1 1) \<and> 0 < count (init 1 1) \<and>
   normal (updateSnowGeometry (init 1 1)) ! 0 = spec_normal (init 1 1) 0 \<and>
   spec_normal (init 1 1) 0 = Some (Vector3 0 (- 1) 0)"
proof -
  have w: "wf (init 1 1)" by (simp add: wf_init)
  have c: "0 < count (init 1 1)" by (simp add: init_fields)
  have v: "normal (updateSnowGeometry (init 1 1)) ! 0 = Some (Vector3 0 (- 1) 0)"
    by (rule fresh_normal_flipped) (simp_all add: init_fields)
  from stored_normal_is_spec_normal [OF w c] w c v show ?thesis by simp
qed

text \<open>
  Claim C9. At a boundary sample a missing neighbour is replaced by the sample itself and
  the edge to it has length zero. The stored normal is nevertheless a vector of numbers
  (\<open>Some\<close>, no division by zero took place), and it is the normal obtained by skipping
  every cross product that involves a missing neighbour.
\<close>

theorem boundary_normal_defined:
  assumes "wf g" and "i < count g"
  shows "normal (updateSnowGeometry g) ! i \<noteq> None \<and>
         normal (updateSnowGeometry g) ! i = Some (normal_skipping g i)"
proof -
  from assms have "i < (nat (snowSegments g) + 1) * (nat (snowSegments g) + 1)"
    by (simp add: wf_count_nat)
  from spec_normal_skipping [OF this] updateSnowGeometry_normal_nth [OF assms]
  show ?thesis by simp
qed

theorem boundary_normal_defined_witness:
  "wf (init 1 1) \<and> 0 < count (init 1 1) \<and>
   normal (updateSnowGeometry (init 1 1)) ! 0 \<noteq> None \<and>
   normal (updateSnowGeometry (init 1 1)) ! 0 = Some (normal_skipping (init 1 1) 0) \<and>
   normal_skipping (init 1 1) 0 = Vector3 0 (- 1) 0"
proof -
  have w: "wf (init 1 1)" by (simp add: wf_init)
  have c: "0 < count (init 1 1)" by (simp add: init_fields)
  have v: "normal (updateSnowGeometry (init 1 1)) ! 0 = Some (Vector3 0 (- 1) 0)"
    by (rule fresh_normal_flipped) (simp_all add: init_fields)
  from boundary_normal_defined [OF w c] w c v show ?thesis by simp
qed

text \<open>
  Claim C3 says that \<^verbatim>\<open>resetSnow\<close> (which ends with \<^verbatim>\<open>updateSnowGeometry\<close>) brings back
  the position, colour and normal buffers of a freshly constructed field. The normals do
  not come back: the fresh field has the upward normal \<open>(0, 1, 0)\<close> everywhere, and after
  a reset every stored normal is \<open>(0, -1, 0)\<close>. Evaluated on the default field
  (size 20, 100 segments) at its centre sample, after the vehicle track at the origin and
  with no press at all.
\<close>

theorem resetSnow_normal_downward:
  "SnowFieldSystem \<lparr>opt_size = None, opt_segments = None\<rparr> = Inr (init 20 100) \<and>
   normal (init 20 100) ! 5100 = Some (Vector3 0 1 0) \<and>
   normal (resetSnow (addVehicleTrack (init 20 100) (Vector3 0 0 0) (2 / 10))) ! 5100 =
     Some (Vector3 0 (- 1) 0) \<and>
   normal (resetSnow (init 20 100)) ! 5100 = Some (Vector3 0 (- 1) 0) \<and>
   position (resetSnow (addVehicleTrack (init 20 100) (Vector3 0 0 0) (2 / 10))) =
     position (init 20 100) \<and>
   color (resetSnow (addVehicleTrack (init 20 100) (Vector3 0 0 0) (2 / 10))) = color (init 20 100)"
proof -
  have c: "5100 < count (init 20 100)" by (simp add: init_fields)
  have "normal (resetSnow (press_all (vehicle_presses (Vector3 0 0 0) (2 / 10)) (init 20 100))) ! 5100 =
      Some (Vector3 0 (- 1) 0)"
    by (rule reset_normal_flat [OF _ _ c]) simp_all
  moreover have "normal (resetSnow (press_all [] (init 20 100))) ! 5100 = Some (Vector3 0 (- 1) 0)"
    by (rule reset_normal_flat [OF _ _ c]) simp_all
  moreover note resetSnow_position_color [of 100 "vehicle_presses (Vector3 0 0 0) (2 / 10)" 20]
  moreover have "press_all [] (init 20 100) = init 20 100" by (simp add: press_all_def)
  ultimately show ?thesis
    by (simp add: addVehicleTrack_press_all SnowFieldSystem_def or_default_def init_fields)
qed

end
